theory Spec2Isabelle
  imports Main "HOL-Library.Sublist"
begin

section \<open>The asset designer page\<close>

text \<open>
  A shallow embedding of \<^verbatim>\<open>src/server/routes/pages/AssetDesignerPage.tsx\<close>: the designer
  state, its reducer with the query synchronisation it performs, the selection resolver,
  the initial state of the page and the data the page hands to its children.

  The page is TypeScript, but the action given to the reducer is untyped, so the values it
  carries are modelled as JavaScript values. The reducer copies the variables of the state
  one level deep and then lets \<^verbatim>\<open>lodash/set\<close> write into the copy, which writes in place
  into the nested objects the copy shares with the state it was made from. Objects are
  therefore kept in a store and values refer to them by address.

  What the page takes from its libraries is modelled as follows.
  \<^item> \<^verbatim>\<open>lodash/set\<close>, \<^verbatim>\<open>lodash/get\<close> and \<^verbatim>\<open>lodash/fromPairs\<close> are written out
    over objects given by their own enumerable data properties. Inherited members (those of
    \<^verbatim>\<open>Object.prototype\<close>), the \<^verbatim>\<open>length\<close> of an array and the characters of a string are
    not properties of the model, so keys that name one of them (\<^verbatim>\<open>constructor\<close>,
    \<^verbatim>\<open>__proto__\<close>, \<^verbatim>\<open>length\<close>) are outside its scope.
  \<^item> The bracket notation of a lodash path (\<^verbatim>\<open>a[0].b\<close>, \<^verbatim>\<open>a["b"]\<close>) is tokenised by a
    regular expression that differs between lodash versions: it is a parameter.
  \<^item> \<^verbatim>\<open>JSON.stringify\<close>, which may throw, and the \<^verbatim>\<open>query-string\<close> functions
    \<^verbatim>\<open>parse\<close> and \<^verbatim>\<open>stringify\<close> are parameters; nothing is assumed about them.
  \<^item> The browser is the part of \<^verbatim>\<open>location\<close> and of the session history that the page
    reads and writes, passed in and returned.
\<close>

subsection \<open>JavaScript values and the store\<close>

datatype kind = PlainObject | Array

text \<open>
  Numbers are the integers. An object or array is the list of its own properties, in the
  order they were added (JavaScript enumerates keys that are array indices first; the model
  keeps them where they were added). A property that is absent reads as \<^verbatim>\<open>undefined\<close>.
\<close>

datatype jsval =
    JUndefined
  | JNull
  | JBool bool
  | JNum int
  | JStr string
  | JRef nat

type_synonym properties = "(string \<times> jsval) list"

record object =
  kind :: kind
  members :: properties

text \<open>
  The store lists the objects made so far; the address of an object is its position, and a
  new object is added at the end. JavaScript has no reference to an object that does not
  exist: an address beyond the store reads as an object without properties and is not
  written to.
\<close>

type_synonym store = "object list"

definition getProp :: "properties \<Rightarrow> string \<Rightarrow> jsval" where
  "getProp ps key = (case map_of ps key of Some v \<Rightarrow> v | None \<Rightarrow> JUndefined)"

definition hasProp :: "properties \<Rightarrow> string \<Rightarrow> bool" where
  \<comment> \<open>\<^verbatim>\<open>key in object\<close>\<close>
  "hasProp ps key = (map_of ps key \<noteq> None)"

fun setProp :: "properties \<Rightarrow> string \<Rightarrow> jsval \<Rightarrow> properties" where
  \<comment> \<open>an existing property keeps its place, a new one is added last\<close>
  "setProp [] key v = [(key, v)]"
| "setProp ((k, w) # ps) key v =
     (if k = key then (key, v) # ps else (k, w) # setProp ps key v)"

definition propsAt :: "store \<Rightarrow> nat \<Rightarrow> properties" where
  "propsAt h r = (if r < length h then members (h ! r) else [])"

definition readProp :: "store \<Rightarrow> nat \<Rightarrow> string \<Rightarrow> jsval" where
  \<comment> \<open>\<^verbatim>\<open>object[key]\<close>\<close>
  "readProp h r key = getProp (propsAt h r) key"

definition writeProp :: "store \<Rightarrow> nat \<Rightarrow> string \<Rightarrow> jsval \<Rightarrow> store" where
  \<comment> \<open>\<^verbatim>\<open>object[key] = value\<close>\<close>
  "writeProp h r key v =
     (if r < length h then h[r := (h ! r)\<lparr>members := setProp (members (h ! r)) key v\<rparr>] else h)"

definition wellFormed :: "store \<Rightarrow> bool" where
  \<comment> \<open>every reference held in the store is to an object of the store\<close>
  "wellFormed h =
     list_all (\<lambda>obj. list_all (\<lambda>(k, v). case v of JRef r \<Rightarrow> r < length h | _ \<Rightarrow> True) (members obj)) h"

subsection \<open>lodash: paths\<close>

definition isWordChar :: "char \<Rightarrow> bool" where
  \<comment> \<open>the class \<^verbatim>\<open>\w\<close>\<close>
  "isWordChar c =
     (c \<in> set ''abcdefghijklmnopqrstuvwxyzABCDEFGHIJKLMNOPQRSTUVWXYZ0123456789_'')"

definition isDigit :: "char \<Rightarrow> bool" where
  \<comment> \<open>the class \<^verbatim>\<open>\d\<close>\<close>
  "isDigit c = (c \<in> set ''0123456789'')"

definition reIsPlainProp :: "string \<Rightarrow> bool" where
  \<comment> \<open>\<^verbatim>\<open>/^\w*$/\<close>\<close>
  "reIsPlainProp s = list_all isWordChar s"

fun closesBracket :: "bool \<Rightarrow> string \<Rightarrow> bool" where
  \<comment> \<open>whether a \<^verbatim>\<open>]\<close> stands somewhere after a \<^verbatim>\<open>[\<close> (the flag: a \<^verbatim>\<open>[\<close> was seen)\<close>
  "closesBracket opened [] = False"
| "closesBracket opened (c # cs) =
     (if c = CHR '']'' \<and> opened then True
      else closesBracket (opened \<or> c = CHR ''['') cs)"

definition reIsDeepProp :: "string \<Rightarrow> bool" where
  \<comment> \<open>\<^verbatim>\<open>/\.|\[(?:[^[\]]*|(["'])(?:(?!\1)[^\\]|\\.)*?\1)\]/\<close>: a dot, or a bracket that is
      closed again (the innermost such pair already matches the first alternative)\<close>
  "reIsDeepProp s = (CHR ''.'' \<in> set s \<or> closesBracket False s)"

definition isKey :: "string \<Rightarrow> properties \<Rightarrow> bool" where
  "isKey v object = (reIsPlainProp v \<or> \<not> reIsDeepProp v \<or> hasProp object v)"

fun splitDots :: "string \<Rightarrow> string list" where
  \<comment> \<open>the pieces of a string between its dots; a leading, trailing or doubled dot gives
      an empty piece\<close>
  "splitDots [] = [[]]"
| "splitDots (c # cs) =
     (if c = CHR ''.'' then [] # splitDots cs
      else (c # hd (splitDots cs)) # tl (splitDots cs))"

definition hasBracket :: "string \<Rightarrow> bool" where
  "hasBracket s = (CHR ''['' \<in> set s \<or> CHR '']'' \<in> set s)"

datatype error = Error string | TypeError

record Libs =
  bracketPath :: "string \<Rightarrow> string list"
  JSON_stringify :: "store \<Rightarrow> jsval \<Rightarrow> error + string"
  queryString_parse :: "string \<Rightarrow> properties"
  queryString_stringify :: "store \<Rightarrow> properties \<Rightarrow> string"

definition stringToPath :: "Libs \<Rightarrow> string \<Rightarrow> string list" where
  \<comment> \<open>the keys of a path written as a string: the pieces between the dots when the string
      has no bracket, and what lodash makes of the bracket notation otherwise\<close>
  "stringToPath L s =
     (if s = [] then []
      else if hasBracket s then bracketPath L s
      else splitDots s)"

definition castPath :: "Libs \<Rightarrow> string \<Rightarrow> properties \<Rightarrow> string list" where
  "castPath L v object = (if isKey v object then [v] else stringToPath L v)"

subsection \<open>lodash: set, get, fromPairs\<close>

definition reIsUint :: "string \<Rightarrow> bool" where
  \<comment> \<open>\<^verbatim>\<open>/^(?:0|[1-9]\d*)$/\<close>\<close>
  "reIsUint s =
     (s = ''0'' \<or> (s \<noteq> [] \<and> hd s \<in> set ''123456789'' \<and> list_all isDigit (tl s)))"

definition toNumber :: "string \<Rightarrow> nat" where
  \<comment> \<open>the number a string of digits denotes\<close>
  "toNumber s = foldl (\<lambda>n c. 10 * n + (of_char c - 48)) 0 s"

definition MAX_SAFE_INTEGER :: nat where
  "MAX_SAFE_INTEGER = 9007199254740991"

definition isIndex :: "string \<Rightarrow> bool" where
  "isIndex v = (reIsUint v \<and> toNumber v < MAX_SAFE_INTEGER)"

definition newObject :: "string \<Rightarrow> object" where
  \<comment> \<open>\<^verbatim>\<open>isIndex(path[index + 1]) ? [] : {}\<close>\<close>
  "newObject next = \<lparr>kind = (if isIndex next then Array else PlainObject), members = []\<rparr>"

fun baseSet :: "store \<Rightarrow> nat \<Rightarrow> string list \<Rightarrow> jsval \<Rightarrow> store" where
  \<comment> \<open>the loop of \<^verbatim>\<open>baseSet\<close> over the keys of the path, \<open>nested\<close> being the object it has
      reached: below the last key it keeps the object it finds under the key, or puts a new
      array or object there, assigns it and goes on inside it; at the last key it assigns
      the value\<close>
  "baseSet h nested [] v = h"
| "baseSet h nested [key] v = writeProp h nested key v"
| "baseSet h nested (key # next # rest) v =
     (case readProp h nested key of
        JRef r \<Rightarrow> baseSet (writeProp h nested key (JRef r)) r (next # rest) v
      | _ \<Rightarrow>
          baseSet (writeProp (h @ [newObject next]) nested key (JRef (length h)))
            (length h) (next # rest) v)"

text \<open>
  The objects that the loop of \<^verbatim>\<open>baseSet\<close> assigns to, in the order it reaches them: the
  object it starts from, then the object it finds or puts under each key but the last.
\<close>

fun pathObjects :: "store \<Rightarrow> nat \<Rightarrow> string list \<Rightarrow> nat list" where
  "pathObjects h nested [] = []"
| "pathObjects h nested [key] = [nested]"
| "pathObjects h nested (key # next # rest) =
     nested #
     (case readProp h nested key of
        JRef r \<Rightarrow> pathObjects h r (next # rest)
      | _ \<Rightarrow>
          pathObjects (writeProp (h @ [newObject next]) nested key (JRef (length h)))
            (length h) (next # rest))"

definition lodash_set :: "Libs \<Rightarrow> store \<Rightarrow> nat \<Rightarrow> string \<Rightarrow> jsval \<Rightarrow> store" where
  \<comment> \<open>\<^verbatim>\<open>set(object, path, value)\<close>\<close>
  "lodash_set L h object path v = baseSet h object (castPath L path (propsAt h object)) v"

fun baseGet :: "store \<Rightarrow> jsval \<Rightarrow> string list \<Rightarrow> jsval" where
  "baseGet h object [] = object"
| "baseGet h object (key # rest) =
     (case object of
        JRef r \<Rightarrow> baseGet h (readProp h r key) rest
      | JUndefined \<Rightarrow> JUndefined
      | JNull \<Rightarrow> JUndefined
      | _ \<Rightarrow> baseGet h JUndefined rest)"

definition ownProps :: "store \<Rightarrow> jsval \<Rightarrow> properties" where
  "ownProps h v = (case v of JRef r \<Rightarrow> propsAt h r | _ \<Rightarrow> [])"

definition lodash_get :: "Libs \<Rightarrow> store \<Rightarrow> jsval \<Rightarrow> string \<Rightarrow> jsval" where
  \<comment> \<open>\<^verbatim>\<open>get(object, path)\<close>; an empty path reads \<^verbatim>\<open>undefined\<close>\<close>
  "lodash_get L h object path =
     (let p = castPath L path (ownProps h object) in
      if p = [] then JUndefined else baseGet h object p)"

definition fromPairs :: "store \<Rightarrow> (string \<times> jsval) list \<Rightarrow> nat \<times> store" where
  \<comment> \<open>a new object with the pairs assigned in their order, and its address\<close>
  "fromPairs h pairs =
     (length h,
      h @ [\<lparr>kind = PlainObject, members = foldl (\<lambda>result (k, v). setProp result k v) [] pairs\<rparr>])"

subsection \<open>The designer state and its reducer\<close>

record DesignerState =
  themeId :: jsval
  selectionId :: jsval
  variables :: nat

text \<open>
  \<^verbatim>\<open>variables\<close> is the address of the object that holds the variables. The members of the
  enumeration \<^verbatim>\<open>ActionTypes\<close> are the numbers 0, 1 and 2. An action is read through its
  \<^verbatim>\<open>type\<close>, \<^verbatim>\<open>field\<close> and \<^verbatim>\<open>value\<close>; the field is read by the variable update only,
  which is dispatched with the name a variable selector reports.
\<close>

definition UPDATE_SELECTION_ID :: jsval where
  "UPDATE_SELECTION_ID = JNum 0"

definition UPDATE_THEME_ID :: jsval where
  "UPDATE_THEME_ID = JNum 1"

definition UPDATE_VARIABLE :: jsval where
  "UPDATE_VARIABLE = JNum 2"

record action =
  type :: jsval
  field :: string
  "value" :: jsval

record browser =
  search :: string
  pushed :: "string list"

text \<open>
  \<^verbatim>\<open>search\<close> is \<^verbatim>\<open>location.search\<close>, and \<^verbatim>\<open>pushed\<close> lists the paths given to
  \<^verbatim>\<open>history.push\<close>, oldest first. After a push of \<^verbatim>\<open>?\<close> followed by a query,
  \<^verbatim>\<open>location.search\<close> is that text, and it is empty when the query is.
\<close>

definition updateQuery :: "Libs \<Rightarrow> store \<Rightarrow> string \<Rightarrow> jsval \<Rightarrow> browser \<Rightarrow> browser" where
  "updateQuery L h fld v b =
     (let query = queryString_stringify L h (setProp (queryString_parse L (search b)) fld v) in
      b\<lparr>search := (if query = [] then [] else CHR ''?'' # query),
        pushed := pushed b @ [CHR ''?'' # query]\<rparr>)"

text \<open>
  The reducer takes the store and the browser and returns them with its result. What it
  throws is a result too; the store is returned as it stands at the throw.
\<close>

definition assetDesignerReducer ::
  "Libs \<Rightarrow> DesignerState \<Rightarrow> action \<Rightarrow> store \<Rightarrow> browser
     \<Rightarrow> (error + DesignerState) \<times> store \<times> browser" where
  "assetDesignerReducer L state a h b =
     (if type a = UPDATE_SELECTION_ID then
        (Inr (state\<lparr>selectionId := value a\<rparr>), h, updateQuery L h ''selectionId'' (value a) b)
      else if type a = UPDATE_THEME_ID then
        (Inr (state\<lparr>themeId := value a\<rparr>), h, updateQuery L h ''themeId'' (value a) b)
      else if type a = UPDATE_VARIABLE then
        (let newVariables = length h;
             copied = h @ [\<lparr>kind = PlainObject, members = propsAt h (variables state)\<rparr>];
             h' = lodash_set L copied newVariables (field a) (value a)
         in case JSON_stringify L h' (JRef newVariables) of
              Inl e \<Rightarrow> (Inl e, h', b)
            | Inr text \<Rightarrow>
                (Inr (state\<lparr>variables := newVariables\<rparr>), h',
                 updateQuery L h' ''variables'' (JStr text) b))
      else (Inl (Error ''No matching reducer found!''), h, b))"

subsection \<open>Selections, themes and the page\<close>

record variable =
  variable_id :: string
  validation :: jsval

text \<open>
  A template or component is a function component carrying a \<^verbatim>\<open>filename\<close> and,
  when it declares any, the list of its variable descriptors. Of a descriptor the page
  reads the \<^verbatim>\<open>id\<close> and the \<^verbatim>\<open>validation\<close>; the other members are handed on to the
  variable selector untouched. A registry is the imported module read at a key:
  \<^verbatim>\<open>templates[selectionId]\<close>, with \<open>None\<close> for \<^verbatim>\<open>undefined\<close>.
\<close>

record selection =
  filename :: string
  variableDescriptors :: "variable list option"

record registries =
  templates :: "jsval \<Rightarrow> selection option"
  components :: "jsval \<Rightarrow> selection option"

definition getSelection :: "registries \<Rightarrow> jsval \<Rightarrow> selection option" where
  "getSelection R sid =
     (case templates R sid of Some s \<Rightarrow> Some s | None \<Rightarrow> components R sid)"

record Theme =
  theme_id :: string
  colors_background :: string

record AssetDesignerPageProps =
  initialState :: "jsval option"
  themes :: "Theme list option"

text \<open>
  \<^verbatim>\<open>initialState\<close> holds the \<^verbatim>\<open>selectionId\<close> of the property when the property is
  given; \<^verbatim>\<open>themes\<close> is \<open>None\<close> while the themes are not there.
\<close>

definition initDesignerState ::
  "Libs \<Rightarrow> registries \<Rightarrow> jsval \<Rightarrow> store \<Rightarrow> (error + DesignerState) \<times> store" where
  \<comment> \<open>the initialiser given to \<^verbatim>\<open>useReducer\<close>; reading a member of \<^verbatim>\<open>undefined\<close> throws\<close>
  "initDesignerState L R sid h =
     (case getSelection R sid of
        None \<Rightarrow> (Inl TypeError, h)
      | Some sel \<Rightarrow>
          (case variableDescriptors sel of
             None \<Rightarrow> (Inl TypeError, h)
           | Some vs \<Rightarrow>
               (case fromPairs h
                       (map (\<lambda>d. (variable_id d, lodash_get L h (validation d) ''default'')) vs)
                of (seeded, h') \<Rightarrow>
                  (Inr \<lparr>themeId = JStr [], selectionId = sid, variables = seeded\<rparr>, h'))))"

definition resolveTheme :: "Theme list \<Rightarrow> DesignerState \<Rightarrow> Theme option" where
  \<comment> \<open>\<^verbatim>\<open>themes.find(({ id }) => id === state.themeId) || themes[0]\<close>\<close>
  "resolveTheme ts state =
     (case find (\<lambda>t. JStr (theme_id t) = themeId state) ts of
        Some t \<Rightarrow> Some t
      | None \<Rightarrow> (case ts of [] \<Rightarrow> None | t # _ \<Rightarrow> Some t))"

datatype component = Registered selection | NoSelectionFound

definition resolveSelection :: "registries \<Rightarrow> jsval \<Rightarrow> component" where
  \<comment> \<open>\<^verbatim>\<open>getSelection(selectionId) || NoSelectionFound\<close>\<close>
  "resolveSelection R sid =
     (case getSelection R sid of Some s \<Rightarrow> Registered s | None \<Rightarrow> NoSelectionFound)"

definition componentVariables :: "component \<Rightarrow> variable list" where
  \<comment> \<open>\<^verbatim>\<open>selection.variables\<close> when there is one, else the empty list\<close>
  "componentVariables c =
     (case c of
        Registered s \<Rightarrow> (case variableDescriptors s of Some vs \<Rightarrow> vs | None \<Rightarrow> [])
      | NoSelectionFound \<Rightarrow> [])"

record designerView =
  sidebarBackground :: string
  selectedTheme :: jsval
  selectedTemplate :: jsval
  variableValues :: "(variable \<times> jsval) list"
  mainComponent :: component
  mainVariables :: properties
  mainTheme :: "Theme option"

datatype element = Null | Fragment string | Designer designerView

definition renderNoSelectionFound :: "error + element" where
  \<comment> \<open>the body of \<^verbatim>\<open>NoSelectionFound\<close>\<close>
  "renderNoSelectionFound = Inr (Fragment ''No selection found!'')"

definition renderDesigner ::
  "registries \<Rightarrow> store \<Rightarrow> Theme list \<Rightarrow> DesignerState \<Rightarrow> designerView" where
  \<comment> \<open>the page from the state on: each variable descriptor is paired with
      \<^verbatim>\<open>state.variables[variable.id]\<close>, and the selection is made an element with the
      variables, the theme and a fixed id as its properties\<close>
  "renderDesigner R h ts state =
     (let theme = resolveTheme ts state;
          sel = resolveSelection R (selectionId state) in
      \<lparr>sidebarBackground = (case theme of Some t \<Rightarrow> colors_background t | None \<Rightarrow> []),
       selectedTheme = themeId state,
       selectedTemplate = selectionId state,
       variableValues =
         map (\<lambda>d. (d, readProp h (variables state) (variable_id d))) (componentVariables sel),
       mainComponent = sel,
       mainVariables = propsAt h (variables state),
       mainTheme = theme\<rparr>)"

definition AssetDesignerPage ::
  "Libs \<Rightarrow> registries \<Rightarrow> AssetDesignerPageProps \<Rightarrow> DesignerState option \<Rightarrow> store
     \<Rightarrow> (error + element \<times> DesignerState option) \<times> store" where
  \<comment> \<open>one call of the component. \<open>held\<close> is the state \<^verbatim>\<open>useReducer\<close> holds: \<open>None\<close>
      before the first call that reaches the hook, which runs the initialiser\<close>
  "AssetDesignerPage L R props held h =
     (case themes props of
        None \<Rightarrow> (Inr (Null, held), h)
      | Some ts \<Rightarrow>
          (case held of
             Some state \<Rightarrow> (Inr (Designer (renderDesigner R h ts state), Some state), h)
           | None \<Rightarrow>
               (case initDesignerState L R
                       (case initialState props of Some sid \<Rightarrow> sid | None \<Rightarrow> JStr []) h
                of (Inl e, h') \<Rightarrow> (Inl e, h')
                 | (Inr state, h') \<Rightarrow>
                     (Inr (Designer (renderDesigner R h' ts state), Some state), h'))))"

subsection \<open>The state the URL describes\<close>

text \<open>
  The page is documented as reading the query parameters \<^verbatim>\<open>selectionId\<close>, \<^verbatim>\<open>themeId\<close>
  and \<^verbatim>\<open>variables\<close> when it loads. The following is the state that description gives,
  from the three parameters with the variables decoded into an object of the store; it is
  not part of the page, and stands here to be compared with the state the page starts from.
\<close>

record urlParameters =
  url_selectionId :: jsval
  url_themeId :: jsval
  url_variables :: nat

definition stateReadFromUrl :: "urlParameters \<Rightarrow> DesignerState" where
  "stateReadFromUrl u =
     \<lparr>themeId = url_themeId u, selectionId = url_selectionId u, variables = url_variables u\<rparr>"

subsection \<open>Example data\<close>

text \<open>
  The examples are evaluated on the following data; every theorem below is proved for all
  choices of the library parameters. The stand-ins for the libraries return what the
  libraries return on the arguments the examples of the query synchronisation give them,
  and the result for an empty object or query elsewhere, where no example shows it. No
  example has a path in bracket notation. The store holds the two validation objects of
  the templates, an object without properties and the object \<^verbatim>\<open>{ color: "red" }\<close>. The
  registries hold a template \<^verbatim>\<open>talk\<close> with one variable, a template \<^verbatim>\<open>twice\<close> that
  declares one id twice, and a component without variables under the keys \<^verbatim>\<open>talk\<close> and
  \<^verbatim>\<open>logo\<close>.
\<close>

definition exampleStore :: store where
  "exampleStore =
     [\<lparr>kind = PlainObject, members = [(''default'', JStr ''blue'')]\<rparr>,
      \<lparr>kind = PlainObject, members = [(''default'', JStr ''red'')]\<rparr>,
      \<lparr>kind = PlainObject, members = []\<rparr>,
      \<lparr>kind = PlainObject, members = [(''color'', JStr ''red'')]\<rparr>]"

definition exampleLibs :: Libs where
  \<open>exampleLibs =
     \<lparr>bracketPath = (\<lambda>s. []),
      JSON_stringify =
        (\<lambda>h v. case v of
           JRef r \<Rightarrow>
             if propsAt h r = [(''a'', JRef (Suc r))] \<and> propsAt h (Suc r) = [(''b'', JNum 5)]
             then Inr ''{"a":{"b":5}}'' else Inr ''{}''
         | _ \<Rightarrow> Inr ''{}''),
      queryString_parse =
        (\<lambda>s. if s = ''?selectionId=talk'' then [(''selectionId'', JStr ''talk'')] else []),
      queryString_stringify =
        (\<lambda>h q. if q = [(''selectionId'', JStr ''talk''), (''themeId'', JStr ''dark'')]
                then ''selectionId=talk&themeId=dark''
              else if q = [(''selectionId'', JStr ''talk''),
                           (''variables'', JStr ''{"a":{"b":5}}'')]
                then ''selectionId=talk&variables=%7B%22a%22%3A%7B%22b%22%3A5%7D%7D''
              else [])\<rparr>\<close>

definition talkTemplate :: selection where
  "talkTemplate =
     \<lparr>filename = ''talk'',
      variableDescriptors = Some [\<lparr>variable_id = ''color'', validation = JRef 0\<rparr>]\<rparr>"

definition twiceTemplate :: selection where
  "twiceTemplate =
     \<lparr>filename = ''twice'',
      variableDescriptors =
        Some [\<lparr>variable_id = ''color'', validation = JRef 0\<rparr>,
              \<lparr>variable_id = ''color'', validation = JRef 1\<rparr>]\<rparr>"

definition logoComponent :: selection where
  "logoComponent = \<lparr>filename = ''logo'', variableDescriptors = None\<rparr>"

definition exampleRegistries :: registries where
  "exampleRegistries =
     \<lparr>templates =
        (\<lambda>sid. if sid = JStr ''talk'' then Some talkTemplate
               else if sid = JStr ''twice'' then Some twiceTemplate
               else None),
      components =
        (\<lambda>sid. if sid = JStr ''talk'' \<or> sid = JStr ''logo'' then Some logoComponent
               else None)\<rparr>"

section \<open>Properties\<close>

subsection \<open>Properties and the store\<close>

lemma map_of_setProp:
  "map_of (setProp ps k v) k' = (if k' = k then Some v else map_of ps k')"
  by (induction ps) auto

lemma getProp_setProp:
  "getProp (setProp ps k v) k' = (if k' = k then v else getProp ps k')"
  by (simp add: getProp_def map_of_setProp)

lemma setProp_same: "map_of ps k = Some v \<Longrightarrow> setProp ps k v = ps"
  by (induction ps) (auto split: if_splits)

lemma length_writeProp: "length (writeProp h r k v) = length h"
  by (simp add: writeProp_def)

lemma nth_writeProp_other: "r' \<noteq> r \<Longrightarrow> writeProp h r k v ! r' = h ! r'"
  by (simp add: writeProp_def)

lemma propsAt_writeProp:
  "propsAt (writeProp h r k v) r' =
     (if r' = r \<and> r < length h then setProp (propsAt h r) k v else propsAt h r')"
  by (auto simp: propsAt_def writeProp_def)

lemma readProp_writeProp:
  "readProp (writeProp h r k v) r' k' =
     (if r' = r \<and> r < length h \<and> k' = k then v else readProp h r' k')"
  by (auto simp: readProp_def propsAt_writeProp getProp_setProp)

lemma readProp_in_store: "readProp h r k \<noteq> JUndefined \<Longrightarrow> r < length h"
  by (auto simp: readProp_def propsAt_def getProp_def split: if_splits)

lemma writeProp_same: "readProp h r k = JRef r' \<Longrightarrow> writeProp h r k (JRef r') = h"
proof -
  assume a: "readProp h r k = JRef r'"
  then have r: "r < length h" using readProp_in_store[of h r k] by simp
  with a have "map_of (members (h ! r)) k = Some (JRef r')"
    by (auto simp: readProp_def propsAt_def getProp_def split: option.splits)
  then have "setProp (members (h ! r)) k (JRef r') = members (h ! r)"
    by (rule setProp_same)
  with r show ?thesis by (simp add: writeProp_def)
qed

lemma baseSet_ref:
  "readProp h n k = JRef r \<Longrightarrow> baseSet h n (k # k' # rest) v = baseSet h r (k' # rest) v"
  by (simp add: writeProp_same)

lemma propsAt_append_old: "r < length h \<Longrightarrow> propsAt (h @ g) r = propsAt h r"
  by (simp add: propsAt_def nth_append)

lemma readProp_append_old: "r < length h \<Longrightarrow> readProp (h @ g) r k = readProp h r k"
  by (simp add: readProp_def propsAt_append_old)

lemma propsAt_append_new: "propsAt (h @ [obj]) (length h) = members obj"
  by (simp add: propsAt_def)

lemma length_baseSet: "length h \<le> length (baseSet h n p v)"
proof (induction h n p v rule: baseSet.induct)
  case (3 h nested key "next" rest v)
  show ?case
  proof (cases "readProp h nested key")
    case (JRef r)
    with 3(6)[OF JRef] show ?thesis by (simp add: length_writeProp)
  qed (use 3(1-5) in \<open>force simp: length_writeProp\<close>)+
qed (simp_all add: length_writeProp)

lemma baseSet_frame:
  "r \<notin> set (pathObjects h n p) \<Longrightarrow> r < length h \<Longrightarrow> baseSet h n p v ! r = h ! r"
proof (induction h n p v rule: baseSet.induct)
  case (1 h nested v)
  then show ?case by simp
next
  case (2 h nested key v)
  then show ?case by (simp add: nth_writeProp_other)
next
  case (3 h nested key "next" rest v)
  let ?h1 = "writeProp (h @ [newObject next]) nested key (JRef (length h))"
  from 3(7) have rn: "r \<noteq> nested" by simp
  show ?case
  proof (cases "\<exists>r1. readProp h nested key = JRef r1")
    case True
    then obtain r1 where r1: "readProp h nested key = JRef r1" by blast
    with 3(7) have "r \<notin> set (pathObjects h r1 (next # rest))" by simp
    moreover have "writeProp h nested key (JRef r1) = h" using r1 by (rule writeProp_same)
    ultimately show ?thesis using 3(6)[OF r1] 3(8) r1 by simp
  next
    case False
    then have eq: "baseSet h nested (key # next # rest) v = baseSet ?h1 (length h) (next # rest) v"
      and ch: "pathObjects h nested (key # next # rest) =
                 nested # pathObjects ?h1 (length h) (next # rest)"
      by (cases "readProp h nested key"; simp)+
    have ih: "r \<notin> set (pathObjects ?h1 (length h) (next # rest)) \<Longrightarrow> r < length ?h1 \<Longrightarrow>
        baseSet ?h1 (length h) (next # rest) v ! r = ?h1 ! r"
      using False 3(1-5) by (cases "readProp h nested key") auto
    from 3(7) ch have "r \<notin> set (pathObjects ?h1 (length h) (next # rest))" by simp
    moreover have "r < length ?h1" using 3(8) by (simp add: length_writeProp)
    ultimately have "baseSet ?h1 (length h) (next # rest) v ! r = ?h1 ! r" by (rule ih)
    also have "\<dots> = (h @ [newObject next]) ! r" using rn by (simp add: nth_writeProp_other)
    also have "\<dots> = h ! r" using 3(8) by (simp add: nth_append)
    finally show ?thesis using eq by simp
  qed
qed

subsection \<open>The objects on a path\<close>

lemma wellFormed_ref:
  "wellFormed h \<Longrightarrow> readProp h n k = JRef r \<Longrightarrow> r < length h"
proof -
  assume wf: "wellFormed h" and rd: "readProp h n k = JRef r"
  from rd have n: "n < length h" using readProp_in_store[of h n k] by simp
  with rd have "map_of (members (h ! n)) k = Some (JRef r)"
    by (auto simp: readProp_def propsAt_def getProp_def split: option.splits)
  then have "(k, JRef r) \<in> set (members (h ! n))" by (rule map_of_SomeD)
  moreover from wf n have
    "list_all (\<lambda>(k, v). case v of JRef r \<Rightarrow> r < length h | _ \<Rightarrow> True) (members (h ! n))"
    by (simp add: wellFormed_def list_all_length)
  ultimately show ?thesis by (auto simp: list_all_iff)
qed

lemma set_setProp: "set (setProp ps k v) \<subseteq> insert (k, v) (set ps)"
  by (induction ps k v rule: setProp.induct) auto

lemma wellFormed_writeProp:
  "wellFormed h \<Longrightarrow> (\<And>r. v = JRef r \<Longrightarrow> r < length h) \<Longrightarrow> wellFormed (writeProp h n k v)"
proof -
  assume wf: "wellFormed h" and v: "\<And>r. v = JRef r \<Longrightarrow> r < length h"
  let ?ok = "\<lambda>(k, v). case v of JRef r \<Rightarrow> r < length h | _ \<Rightarrow> True"
  show ?thesis
  proof (cases "n < length h")
    case False
    with wf show ?thesis by (simp add: writeProp_def)
  next
    case True
    from wf True have old: "list_all ?ok (members (h ! n))"
      by (simp add: wellFormed_def list_all_length)
    have new: "list_all ?ok (setProp (members (h ! n)) k v)"
      using old set_setProp[of "members (h ! n)" k v] v
      by (auto simp: list_all_iff split: jsval.splits)
    show ?thesis
      using wf True new
      by (auto simp: wellFormed_def writeProp_def list_all_length nth_list_update)
  qed
qed

lemma wellFormed_append:
  "wellFormed h \<Longrightarrow>
   list_all (\<lambda>(k, v). case v of JRef r \<Rightarrow> r \<le> length h | _ \<Rightarrow> True) (members obj) \<Longrightarrow>
     wellFormed (h @ [obj])"
proof -
  assume wf: "wellFormed h"
    and new: "list_all (\<lambda>(k, v). case v of JRef r \<Rightarrow> r \<le> length h | _ \<Rightarrow> True) (members obj)"
  have "\<And>ob k r. ob \<in> set (h @ [obj]) \<Longrightarrow> (k, JRef r) \<in> set (members ob) \<Longrightarrow>
      r < length (h @ [obj])"
  proof -
    fix ob k r
    assume ob: "ob \<in> set (h @ [obj])" and kr: "(k, JRef r) \<in> set (members ob)"
    from ob have "ob \<in> set h \<or> ob = obj" by auto
    then show "r < length (h @ [obj])"
    proof
      assume "ob \<in> set h"
      with wf kr have "r < length h" by (fastforce simp: wellFormed_def list_all_iff)
      then show ?thesis by simp
    next
      assume "ob = obj"
      with new kr have "r \<le> length h" by (fastforce simp: list_all_iff)
      then show ?thesis by simp
    qed
  qed
  then have "\<And>ob k r. (ob = obj \<or> ob \<in> set h) \<Longrightarrow> (k, JRef r) \<in> set (members ob) \<Longrightarrow>
      r < Suc (length h)"
    by simp
  then show ?thesis
    unfolding wellFormed_def list_all_iff by (auto split: jsval.splits; blast)
qed

lemma wellFormed_newObject: "wellFormed h \<Longrightarrow> wellFormed (h @ [newObject x])"
  by (rule wellFormed_append) (simp_all add: newObject_def)

lemma fresh_chain:
  "propsAt h f = [] \<Longrightarrow> f < length h \<Longrightarrow> r \<in> set (pathObjects h f p) \<Longrightarrow>
     r = f \<or> length h \<le> r"
proof (induction p arbitrary: h f)
  case Nil
  then show ?case by simp
next
  case (Cons k p)
  show ?case
  proof (cases p)
    case Nil
    with Cons.prems show ?thesis by simp
  next
    case (Cons k' rest)
    let ?h1 = "writeProp (h @ [newObject k']) f k (JRef (length h))"
    from Cons.prems(1) have rd: "readProp h f k = JUndefined"
      by (simp add: readProp_def getProp_def)
    with Cons.prems(3) Cons have "r = f \<or> r \<in> set (pathObjects ?h1 (length h) p)"
      by auto
    moreover have "propsAt ?h1 (length h) = []"
      using Cons.prems(2) by (simp add: propsAt_writeProp propsAt_append_new newObject_def)
    moreover have "length h < length ?h1" by (simp add: length_writeProp)
    ultimately show ?thesis
      using Cons.IH[of ?h1 "length h"] by (auto simp: length_writeProp)
  qed
qed

lemma pathObjects_reached:
  "wellFormed h \<Longrightarrow> n < length h \<Longrightarrow> r \<in> set (pathObjects h n p) \<Longrightarrow> r < length h \<Longrightarrow>
     r = n \<or> (\<exists>q. q \<noteq> [] \<and> strict_prefix q p \<and> baseGet h (JRef n) q = JRef r)"
proof (induction p arbitrary: n)
  case Nil
  then show ?case by simp
next
  case (Cons k p)
  show ?case
  proof (cases p)
    case Nil
    with Cons.prems show ?thesis by simp
  next
    case p: (Cons k' rest)
    show ?thesis
    proof (cases "r = n")
      case True
      then show ?thesis by simp
    next
      case rn: False
      show ?thesis
      proof (cases "\<exists>r1. readProp h n k = JRef r1")
        case True
        then obtain r1 where r1: "readProp h n k = JRef r1" by blast
        from wellFormed_ref[OF Cons.prems(1) r1] have r1v: "r1 < length h" .
        from Cons.prems(3) rn r1 p have "r \<in> set (pathObjects h r1 p)" by simp
        from Cons.IH[OF Cons.prems(1) r1v this Cons.prems(4)]
        consider "r = r1" | q where "q \<noteq> []" "strict_prefix q p" "baseGet h (JRef r1) q = JRef r"
          by blast
        then show ?thesis
        proof cases
          case 1
          have "strict_prefix [k] (k # p)" using p by simp
          moreover have "baseGet h (JRef n) [k] = JRef r" using r1 1 by simp
          ultimately show ?thesis by blast
        next
          case 2
          have "strict_prefix (k # q) (k # p)" using 2(2) by simp
          moreover have "baseGet h (JRef n) (k # q) = JRef r" using r1 2(3) by simp
          ultimately show ?thesis by blast
        qed
      next
        case False
        let ?h1 = "writeProp (h @ [newObject k']) n k (JRef (length h))"
        from False have "pathObjects h n (k # p) = n # pathObjects ?h1 (length h) p"
          unfolding p by (cases "readProp h n k") simp_all
        with Cons.prems(3) rn have mem: "r \<in> set (pathObjects ?h1 (length h) p)" by simp
        have "propsAt ?h1 (length h) = []"
          using Cons.prems(2) by (simp add: propsAt_writeProp propsAt_append_new newObject_def)
        moreover have "length h < length ?h1" by (simp add: length_writeProp)
        ultimately have "r = length h \<or> length ?h1 \<le> r"
          using fresh_chain[OF _ _ mem] by blast
        with Cons.prems(4) show ?thesis by (simp add: length_writeProp)
      qed
    qed
  qed
qed

lemma fresh_step_no_ref:
  assumes "\<And>r k. readProp h r k \<noteq> JRef m" and "m < length h"
  shows "readProp (writeProp (h @ [newObject x]) n k (JRef (length h))) r k0 \<noteq> JRef m"
proof
  let ?h1 = "writeProp (h @ [newObject x]) n k (JRef (length h))"
  assume rk: "readProp ?h1 r k0 = JRef m"
  show False
  proof (cases "r = n \<and> n < Suc (length h) \<and> k0 = k")
    case True
    with rk assms(2) show False by (simp add: readProp_writeProp)
  next
    case False
    with rk have a: "readProp (h @ [newObject x]) r k0 = JRef m"
      by (auto simp: readProp_writeProp split: if_splits)
    then have "r < length (h @ [newObject x])"
      using readProp_in_store[of "h @ [newObject x]" r k0] by simp
    then have "r < length h \<or> r = length h" by auto
    then show False
    proof
      assume "r < length h"
      with a assms(1) show False by (auto simp: readProp_append_old)
    next
      assume "r = length h"
      with a show False
        by (simp add: readProp_def propsAt_append_new newObject_def getProp_def)
    qed
  qed
qed

lemma no_return:
  "(\<And>r k. readProp h r k \<noteq> JRef m) \<Longrightarrow> n \<noteq> m \<Longrightarrow> m < length h \<Longrightarrow>
     m \<notin> set (pathObjects h n p)"
proof (induction p arbitrary: h n)
  case Nil
  then show ?case by simp
next
  case (Cons k p)
  show ?case
  proof (cases p)
    case Nil
    with Cons.prems show ?thesis by simp
  next
    case p: (Cons k' rest)
    show ?thesis
    proof (cases "\<exists>r1. readProp h n k = JRef r1")
      case True
      then obtain r1 where r1: "readProp h n k = JRef r1" by blast
      with Cons.prems(1) have "r1 \<noteq> m" by auto
      from Cons.IH[OF Cons.prems(1) this Cons.prems(3)] Cons.prems(2) r1 p
      show ?thesis by simp
    next
      case False
      let ?h1 = "writeProp (h @ [newObject k']) n k (JRef (length h))"
      from False have ch: "pathObjects h n (k # p) = n # pathObjects ?h1 (length h) p"
        unfolding p by (cases "readProp h n k") simp_all
      have "\<And>r k0. readProp ?h1 r k0 \<noteq> JRef m"
        using Cons.prems(1) Cons.prems(3) by (rule fresh_step_no_ref)
      moreover have "length h \<noteq> m" using Cons.prems(3) by simp
      moreover have "m < length ?h1" using Cons.prems(3) by (simp add: length_writeProp)
      ultimately have "m \<notin> set (pathObjects ?h1 (length h) p)" by (rule Cons.IH)
      with ch Cons.prems(2) show ?thesis by simp
    qed
  qed
qed

lemma baseGet_baseSet_same:
  "distinct (pathObjects h n p) \<Longrightarrow> wellFormed h \<Longrightarrow> n < length h \<Longrightarrow> p \<noteq> [] \<Longrightarrow>
     baseGet (baseSet h n p v) (JRef n) p = v"
proof (induction h n p v rule: baseSet.induct)
  case (1 h nested v)
  then show ?case by simp
next
  case (2 h nested key v)
  then show ?case by (simp add: readProp_writeProp)
next
  case (3 h nested key "next" rest v)
  let ?p = "next # rest"
  let ?h1 = "writeProp (h @ [newObject next]) nested key (JRef (length h))"
  show ?case
  proof (cases "\<exists>r1. readProp h nested key = JRef r1")
    case True
    then obtain r1 where r1: "readProp h nested key = JRef r1" by blast
    let ?h' = "baseSet h r1 ?p v"
    have same: "writeProp h nested key (JRef r1) = h" using r1 by (rule writeProp_same)
    from 3(7) r1 have d: "distinct (pathObjects h r1 ?p)" and nn: "nested \<notin> set (pathObjects h r1 ?p)"
      by simp_all
    have r1v: "r1 < length h" using wellFormed_ref[OF 3(8) r1] .
    have "?h' ! nested = h ! nested" using nn 3(9) by (rule baseSet_frame)
    moreover have "nested < length ?h'" using 3(9) length_baseSet[of h r1 ?p v] by simp
    ultimately have "readProp ?h' nested key = JRef r1"
      using r1 3(9) by (simp add: readProp_def propsAt_def)
    moreover have "baseGet ?h' (JRef r1) ?p = v"
      using 3(6)[OF r1] d 3(8) r1v same by simp
    ultimately show ?thesis using r1 same by simp
  next
    case False
    then have eq: "baseSet h nested (key # ?p) v = baseSet ?h1 (length h) ?p v"
      and ch: "pathObjects h nested (key # ?p) = nested # pathObjects ?h1 (length h) ?p"
      by (cases "readProp h nested key"; simp)+
    let ?h' = "baseSet ?h1 (length h) ?p v"
    have ih: "distinct (pathObjects ?h1 (length h) ?p) \<Longrightarrow> wellFormed ?h1 \<Longrightarrow>
        length h < length ?h1 \<Longrightarrow> ?p \<noteq> [] \<Longrightarrow> baseGet ?h' (JRef (length h)) ?p = v"
      using False 3(1-5) by (cases "readProp h nested key") auto
    from 3(7) ch have d: "distinct (pathObjects ?h1 (length h) ?p)"
      and nn: "nested \<notin> set (pathObjects ?h1 (length h) ?p)" by simp_all
    have wf1: "wellFormed ?h1"
      by (rule wellFormed_writeProp[OF wellFormed_newObject[OF 3(8)]]) simp
    have len: "length h < length ?h1" by (simp add: length_writeProp)
    have n1: "nested < length ?h1" using 3(9) by (simp add: length_writeProp)
    have "?h' ! nested = ?h1 ! nested" using nn n1 by (rule baseSet_frame)
    moreover have "nested < length ?h'" using n1 length_baseSet[of ?h1 "length h" ?p v] by simp
    ultimately have "readProp ?h' nested key = readProp ?h1 nested key"
      using n1 by (simp add: readProp_def propsAt_def)
    also have "\<dots> = JRef (length h)" using 3(9) by (simp add: readProp_writeProp)
    finally have "readProp ?h' nested key = JRef (length h)" .
    moreover have "baseGet ?h' (JRef (length h)) ?p = v" using ih[OF d wf1 len] by simp
    ultimately show ?thesis using eq by simp
  qed
qed

lemma baseGet_undefined: "baseGet h JUndefined q = JUndefined"
  by (cases q) simp_all

lemma baseGet_append:
  "wellFormed h \<Longrightarrow> (\<And>r. w = JRef r \<Longrightarrow> r < length h) \<Longrightarrow> baseGet (h @ g) w q = baseGet h w q"
proof (induction q arbitrary: w)
  case Nil
  then show ?case by simp
next
  case (Cons k q)
  show ?case
  proof (cases w)
    case (JRef r)
    with Cons.prems(2) have r: "r < length h" by simp
    have "\<And>r'. readProp h r k = JRef r' \<Longrightarrow> r' < length h"
      using Cons.prems(1) by (rule wellFormed_ref)
    from Cons.IH[OF Cons.prems(1) this] r JRef show ?thesis
      by (simp add: readProp_append_old)
  qed (simp_all add: baseGet_undefined)
qed

lemma wellFormed_propsAt:
  "wellFormed h \<Longrightarrow>
     list_all (\<lambda>(k, v). case v of JRef r \<Rightarrow> r < length h | _ \<Rightarrow> True) (propsAt h r)"
  by (simp add: wellFormed_def propsAt_def list_all_length)

lemma wellFormed_copy:
  "wellFormed h \<Longrightarrow> wellFormed (h @ [\<lparr>kind = kd, members = propsAt h vs\<rparr>])"
proof (rule wellFormed_append)
  assume wf: "wellFormed h"
  from wellFormed_propsAt[OF wf, of vs]
  show "list_all (\<lambda>(k, v). case v of JRef r \<Rightarrow> r \<le> length h | _ \<Rightarrow> True)
          (members \<lparr>kind = kd, members = propsAt h vs\<rparr>)"
    by (auto simp: list_all_iff split: jsval.splits)
qed

lemma readProp_copy:
  "readProp (h @ [\<lparr>kind = kd, members = propsAt h vs\<rparr>]) (length h) k = readProp h vs k"
  by (simp add: readProp_def propsAt_append_new)

lemma copy_no_ref:
  assumes wf: "wellFormed h"
  shows "readProp (h @ [\<lparr>kind = kd, members = propsAt h vs\<rparr>]) r k \<noteq> JRef (length h)"
proof
  let ?c = "h @ [\<lparr>kind = kd, members = propsAt h vs\<rparr>]"
  assume a: "readProp ?c r k = JRef (length h)"
  then have "r < length ?c" using readProp_in_store[of ?c r k] by simp
  then have "r < length h \<or> r = length h" by auto
  then show False
  proof
    assume "r < length h"
    with a have "readProp h r k = JRef (length h)" by (simp add: readProp_append_old)
    from wellFormed_ref[OF wf this] show False by simp
  next
    assume "r = length h"
    with a have "readProp h vs k = JRef (length h)" by (simp add: readProp_copy)
    from wellFormed_ref[OF wf this] show False by simp
  qed
qed

lemma copy_baseGet:
  assumes wf: "wellFormed h" and q: "q \<noteq> []"
  shows "baseGet (h @ [\<lparr>kind = kd, members = propsAt h vs\<rparr>]) (JRef (length h)) q =
         baseGet h (JRef vs) q"
proof -
  from q obtain k q' where q': "q = k # q'" by (cases q) auto
  have "\<And>r. readProp h vs k = JRef r \<Longrightarrow> r < length h" using wf by (rule wellFormed_ref)
  from baseGet_append[OF wf this] show ?thesis
    by (simp add: q' readProp_copy)
qed

subsection \<open>Reading along the written path\<close>

lemma readProp_frame:
  "r \<notin> set (pathObjects h n p) \<Longrightarrow> r < length h \<Longrightarrow>
     readProp (baseSet h n p v) r k = readProp h r k"
proof -
  assume a: "r \<notin> set (pathObjects h n p)" and r: "r < length h"
  then have "baseSet h n p v ! r = h ! r" by (rule baseSet_frame)
  moreover have "r < length (baseSet h n p v)" using r length_baseSet[of h n p v] by simp
  ultimately show ?thesis using r by (simp add: readProp_def propsAt_def)
qed

lemma baseSet_new:
  "\<forall>r. readProp h n k \<noteq> JRef r \<Longrightarrow>
     baseSet h n (k # k' # rest) v =
       baseSet (writeProp (h @ [newObject k']) n k (JRef (length h))) (length h) (k' # rest) v"
  by (cases "readProp h n k") simp_all

lemma pathObjects_new:
  "\<forall>r. readProp h n k \<noteq> JRef r \<Longrightarrow>
     pathObjects h n (k # k' # rest) =
       n # pathObjects (writeProp (h @ [newObject k']) n k (JRef (length h))) (length h) (k' # rest)"
  by (cases "readProp h n k") simp_all

lemma baseGet_nonref: "\<forall>r. w \<noteq> JRef r \<Longrightarrow> q \<noteq> [] \<Longrightarrow> baseGet h w q = JUndefined"
  by (cases q; cases w) (simp_all add: baseGet_undefined)

lemma baseGet_fresh:
  "propsAt h f = [] \<Longrightarrow> q \<noteq> [] \<Longrightarrow> baseGet h (JRef f) q = JUndefined"
  by (cases q) (simp_all add: readProp_def getProp_def baseGet_undefined)

lemma propsAt_fresh_step:
  "n < length h \<Longrightarrow> propsAt (writeProp (h @ [newObject x]) n k (JRef (length h))) (length h) = []"
  by (simp add: propsAt_writeProp propsAt_append_new newObject_def)

lemma wellFormed_fresh_step:
  "wellFormed h \<Longrightarrow> wellFormed (writeProp (h @ [newObject x]) n k (JRef (length h)))"
  by (rule wellFormed_writeProp[OF wellFormed_newObject]) simp_all

lemma readProp_fresh_step:
  "n < length h \<Longrightarrow>
     readProp (writeProp (h @ [newObject x]) n k (JRef (length h))) n k' =
       (if k' = k then JRef (length h) else readProp h n k')"
  by (simp add: readProp_writeProp readProp_append_old)

lemma strict_prefix_Cons_cases:
  "strict_prefix q (k # p) \<Longrightarrow> q = [] \<or> (\<exists>q'. q = k # q' \<and> strict_prefix q' p)"
  by (cases q) auto

lemma baseSet_siblings:
  "distinct (pathObjects h n p) \<Longrightarrow> wellFormed h \<Longrightarrow> n < length h \<Longrightarrow>
   strict_prefix q p \<Longrightarrow> k \<noteq> p ! length q \<Longrightarrow>
     baseGet (baseSet h n p v) (JRef n) (q @ [k]) = baseGet h (JRef n) (q @ [k])"
proof (induction p arbitrary: h n q)
  case Nil
  then show ?case by simp
next
  case (Cons k0 p)
  show ?case
  proof (cases p)
    case Nil
    with Cons.prems(4) have "q = []" by (cases q) auto
    with Nil Cons.prems(5) show ?thesis by (simp add: readProp_writeProp)
  next
    case p: (Cons k1 rest)
    show ?thesis
    proof (cases "\<exists>r1. readProp h n k0 = JRef r1")
      case True
      then obtain r1 where r1: "readProp h n k0 = JRef r1" by blast
      let ?h' = "baseSet h r1 p v"
      have eq: "baseSet h n (k0 # p) v = ?h'" unfolding p using r1 by (rule baseSet_ref)
      from Cons.prems(1) r1 p have d: "distinct (pathObjects h r1 p)"
        and nn: "n \<notin> set (pathObjects h r1 p)" by simp_all
      have r1v: "r1 < length h" using wellFormed_ref[OF Cons.prems(2) r1] .
      have rd: "\<And>k'. readProp ?h' n k' = readProp h n k'"
        using nn Cons.prems(3) by (rule readProp_frame)
      from strict_prefix_Cons_cases[OF Cons.prems(4)] show ?thesis
      proof
        assume "q = []"
        then show ?thesis using eq rd by simp
      next
        assume "\<exists>q'. q = k0 # q' \<and> strict_prefix q' p"
        then obtain q' where q: "q = k0 # q'" and sp: "strict_prefix q' p" by blast
        from Cons.prems(5) q have "k \<noteq> p ! length q'" by simp
        from Cons.IH[OF d Cons.prems(2) r1v sp this]
        show ?thesis using eq rd r1 q by simp
      qed
    next
      case False
      then have nr: "\<forall>r. readProp h n k0 \<noteq> JRef r" by simp
      let ?h1 = "writeProp (h @ [newObject k1]) n k0 (JRef (length h))"
      let ?h' = "baseSet ?h1 (length h) p v"
      have eq: "baseSet h n (k0 # p) v = ?h'" unfolding p using nr by (rule baseSet_new)
      have ch: "pathObjects h n (k0 # p) = n # pathObjects ?h1 (length h) p"
        unfolding p using nr by (rule pathObjects_new)
      from Cons.prems(1) ch have d: "distinct (pathObjects ?h1 (length h) p)"
        and nn: "n \<notin> set (pathObjects ?h1 (length h) p)" by simp_all
      have wf1: "wellFormed ?h1" using Cons.prems(2) by (rule wellFormed_fresh_step)
      have len: "length h < length ?h1" by (simp add: length_writeProp)
      have n1: "n < length ?h1" using Cons.prems(3) by (simp add: length_writeProp)
      have rd: "\<And>k'. readProp ?h' n k' = readProp ?h1 n k'"
        using nn n1 by (rule readProp_frame)
      have fresh: "propsAt ?h1 (length h) = []" using Cons.prems(3) by (rule propsAt_fresh_step)
      from strict_prefix_Cons_cases[OF Cons.prems(4)] show ?thesis
      proof
        assume "q = []"
        then show ?thesis using eq rd Cons.prems(3,5) by (simp add: readProp_fresh_step)
      next
        assume "\<exists>q'. q = k0 # q' \<and> strict_prefix q' p"
        then obtain q' where q: "q = k0 # q'" and sp: "strict_prefix q' p" by blast
        from Cons.prems(5) q have "k \<noteq> p ! length q'" by simp
        from Cons.IH[OF d wf1 len sp this]
        have "baseGet ?h' (JRef (length h)) (q' @ [k]) = baseGet ?h1 (JRef (length h)) (q' @ [k])" .
        also have "\<dots> = JUndefined" using fresh by (rule baseGet_fresh) simp
        finally have new: "baseGet ?h' (JRef (length h)) (q' @ [k]) = JUndefined" .
        have old: "baseGet h (readProp h n k0) (q' @ [k]) = JUndefined"
          using nr by (rule baseGet_nonref) simp
        show ?thesis using eq rd new old q Cons.prems(3) by (simp add: readProp_fresh_step)
      qed
    qed
  qed
qed

lemma baseSet_path_objects:
  "distinct (pathObjects h n p) \<Longrightarrow> wellFormed h \<Longrightarrow> n < length h \<Longrightarrow>
   q \<noteq> [] \<Longrightarrow> strict_prefix q p \<Longrightarrow>
     \<exists>r. baseGet (baseSet h n p v) (JRef n) q = JRef r \<and>
         (case baseGet h (JRef n) q of JRef r0 \<Rightarrow> r = r0 | _ \<Rightarrow> length h \<le> r)"
proof (induction p arbitrary: h n q)
  case Nil
  then show ?case by simp
next
  case (Cons k0 p)
  from strict_prefix_Cons_cases[OF Cons.prems(5)] Cons.prems(4)
  obtain q' where q: "q = k0 # q'" and sp: "strict_prefix q' p" by blast
  from sp obtain k1 rest where p: "p = k1 # rest" by (cases p) auto
  show ?case
  proof (cases "\<exists>r1. readProp h n k0 = JRef r1")
    case True
    then obtain r1 where r1: "readProp h n k0 = JRef r1" by blast
    let ?h' = "baseSet h r1 p v"
    have eq: "baseSet h n (k0 # p) v = ?h'" unfolding p using r1 by (rule baseSet_ref)
    from Cons.prems(1) r1 p have d: "distinct (pathObjects h r1 p)"
      and nn: "n \<notin> set (pathObjects h r1 p)" by simp_all
    have r1v: "r1 < length h" using wellFormed_ref[OF Cons.prems(2) r1] .
    have rd: "\<And>k'. readProp ?h' n k' = readProp h n k'"
      using nn Cons.prems(3) by (rule readProp_frame)
    show ?thesis
    proof (cases "q' = []")
      case True
      then show ?thesis using eq rd r1 q by simp
    next
      case False
      from Cons.IH[OF d Cons.prems(2) r1v False sp]
      show ?thesis using eq rd r1 q by simp
    qed
  next
    case False
    then have nr: "\<forall>r. readProp h n k0 \<noteq> JRef r" by simp
    let ?h1 = "writeProp (h @ [newObject k1]) n k0 (JRef (length h))"
    let ?h' = "baseSet ?h1 (length h) p v"
    have eq: "baseSet h n (k0 # p) v = ?h'" unfolding p using nr by (rule baseSet_new)
    have ch: "pathObjects h n (k0 # p) = n # pathObjects ?h1 (length h) p"
      unfolding p using nr by (rule pathObjects_new)
    from Cons.prems(1) ch have d: "distinct (pathObjects ?h1 (length h) p)"
      and nn: "n \<notin> set (pathObjects ?h1 (length h) p)" by simp_all
    have wf1: "wellFormed ?h1" using Cons.prems(2) by (rule wellFormed_fresh_step)
    have len: "length h < length ?h1" by (simp add: length_writeProp)
    have n1: "n < length ?h1" using Cons.prems(3) by (simp add: length_writeProp)
    have rd: "\<And>k'. readProp ?h' n k' = readProp ?h1 n k'"
      using nn n1 by (rule readProp_frame)
    have fresh: "propsAt ?h1 (length h) = []" using Cons.prems(3) by (rule propsAt_fresh_step)
    have top: "readProp ?h' n k0 = JRef (length h)"
      using rd Cons.prems(3) by (simp add: readProp_fresh_step)
    show ?thesis
    proof (cases "q' = []")
      case True
      have "case readProp h n k0 of JRef r0 \<Rightarrow> length h = r0 | _ \<Rightarrow> length h \<le> length h"
        using nr by (cases "readProp h n k0") simp_all
      then show ?thesis using eq top q True by simp
    next
      case False
      from Cons.IH[OF d wf1 len False sp]
      obtain r where r: "baseGet ?h' (JRef (length h)) q' = JRef r"
        and c: "case baseGet ?h1 (JRef (length h)) q' of JRef r0 \<Rightarrow> r = r0 | _ \<Rightarrow> length ?h1 \<le> r"
        by blast
      have "baseGet ?h1 (JRef (length h)) q' = JUndefined" using fresh False by (rule baseGet_fresh)
      with c have "length ?h1 \<le> r" by simp
      then have lr: "length h \<le> r" by (simp add: length_writeProp)
      have old: "baseGet h (readProp h n k0) q' = JUndefined"
        using nr False by (rule baseGet_nonref)
      show ?thesis using eq top r lr old q by simp
    qed
  qed
qed

lemma top_object:
  assumes noref: "\<And>r k. readProp h r k \<noteq> JRef n" and n: "n < length h"
  shows "baseSet h n (k # ks) v ! n =
           (h ! n)\<lparr>members := setProp (members (h ! n)) k (readProp (baseSet h n (k # ks) v) n k)\<rparr>"
proof (cases ks)
  case Nil
  with n show ?thesis by (simp add: readProp_writeProp) (simp add: writeProp_def)
next
  case (Cons k1 rest)
  show ?thesis
  proof (cases "\<exists>r1. readProp h n k = JRef r1")
    case True
    then obtain r1 where r1: "readProp h n k = JRef r1" by blast
    with noref have "r1 \<noteq> n" by auto
    with noref n have nn: "n \<notin> set (pathObjects h r1 ks)" by (intro no_return) auto
    have eq: "baseSet h n (k # ks) v = baseSet h r1 ks v"
      unfolding Cons using r1 by (rule baseSet_ref)
    have obj: "baseSet h r1 ks v ! n = h ! n" using nn n by (rule baseSet_frame)
    have rd: "readProp (baseSet h r1 ks v) n k = JRef r1"
      using readProp_frame[OF nn n] r1 by simp
    from r1 n have "map_of (members (h ! n)) k = Some (JRef r1)"
      by (auto simp: readProp_def propsAt_def getProp_def split: option.splits)
    then have "setProp (members (h ! n)) k (JRef r1) = members (h ! n)" by (rule setProp_same)
    then show ?thesis using eq obj rd by simp
  next
    case False
    then have nr: "\<forall>r. readProp h n k \<noteq> JRef r" by simp
    let ?h1 = "writeProp (h @ [newObject k1]) n k (JRef (length h))"
    have eq: "baseSet h n (k # ks) v = baseSet ?h1 (length h) ks v"
      unfolding Cons using nr by (rule baseSet_new)
    have n1: "n < length ?h1" using n by (simp add: length_writeProp)
    have "\<And>r k0. readProp ?h1 r k0 \<noteq> JRef n" using noref n by (rule fresh_step_no_ref)
    moreover have "length h \<noteq> n" using n by simp
    ultimately have nn: "n \<notin> set (pathObjects ?h1 (length h) ks)"
      using n1 by (intro no_return) auto
    have obj: "baseSet ?h1 (length h) ks v ! n = ?h1 ! n" using nn n1 by (rule baseSet_frame)
    have rd: "readProp (baseSet ?h1 (length h) ks v) n k = JRef (length h)"
      using readProp_frame[OF nn n1] n by (simp add: readProp_fresh_step)
    have "?h1 ! n = (h ! n)\<lparr>members := setProp (members (h ! n)) k (JRef (length h))\<rparr>"
      using n by (simp add: writeProp_def nth_append)
    then show ?thesis using eq obj rd by simp
  qed
qed

subsection \<open>Paths of a field\<close>

lemmas path_defs = castPath_def isKey_def reIsPlainProp_def isWordChar_def reIsDeepProp_def
  hasProp_def stringToPath_def hasBracket_def getProp_def isIndex_def reIsUint_def isDigit_def
  toNumber_def MAX_SAFE_INTEGER_def

lemmas store_defs = propsAt_def readProp_def writeProp_def newObject_def

lemma castPath_dotted_aux: "CHR '']'' \<notin> set s \<Longrightarrow> \<not> closesBracket opened s"
  by (induction s arbitrary: opened) auto

lemma splitDots_nonempty: "splitDots s \<noteq> []"
  by (induction s) auto

lemma splitDots_no_dot: "CHR ''.'' \<notin> set s \<Longrightarrow> splitDots s = [s]"
  by (induction s) auto

lemma plain_no_dot: "reIsPlainProp s \<Longrightarrow> CHR ''.'' \<notin> set s"
  by (induction s) (auto simp: reIsPlainProp_def isWordChar_def)

lemma castPath_key: "hasProp object f \<Longrightarrow> castPath L f object = [f]"
  by (simp add: castPath_def isKey_def)

lemma castPath_dotted:
  "\<not> hasBracket f \<Longrightarrow> \<not> hasProp object f \<Longrightarrow> castPath L f object = splitDots f"
proof -
  assume nb: "\<not> hasBracket f" and nk: "\<not> hasProp object f"
  from nb have deep: "reIsDeepProp f = (CHR ''.'' \<in> set f)"
    by (simp add: reIsDeepProp_def hasBracket_def castPath_dotted_aux)
  show ?thesis
  proof (cases "CHR ''.'' \<in> set f")
    case True
    then have "f \<noteq> []" by auto
    with True nk nb deep plain_no_dot[of f] show ?thesis
      by (auto simp: castPath_def isKey_def stringToPath_def)
  next
    case False
    with nk deep show ?thesis
      by (simp add: castPath_def isKey_def splitDots_no_dot)
  qed
qed

subsection \<open>The variable update and the seeding\<close>

lemmas action_types = UPDATE_SELECTION_ID_def UPDATE_THEME_ID_def UPDATE_VARIABLE_def

lemma reducer_variable:
  "type a = UPDATE_VARIABLE \<Longrightarrow>
     assetDesignerReducer L state a h b =
       (case JSON_stringify L
               (baseSet (h @ [\<lparr>kind = PlainObject, members = propsAt h (variables state)\<rparr>])
                  (length h) (castPath L (field a) (propsAt h (variables state))) (value a))
               (JRef (length h)) of
          Inl e \<Rightarrow>
            (Inl e,
             baseSet (h @ [\<lparr>kind = PlainObject, members = propsAt h (variables state)\<rparr>])
               (length h) (castPath L (field a) (propsAt h (variables state))) (value a),
             b)
        | Inr text \<Rightarrow>
            (Inr (state\<lparr>variables := length h\<rparr>),
             baseSet (h @ [\<lparr>kind = PlainObject, members = propsAt h (variables state)\<rparr>])
               (length h) (castPath L (field a) (propsAt h (variables state))) (value a),
             updateQuery L
               (baseSet (h @ [\<lparr>kind = PlainObject, members = propsAt h (variables state)\<rparr>])
                  (length h) (castPath L (field a) (propsAt h (variables state))) (value a))
               ''variables'' (JStr text) b))"
  by (simp add: assetDesignerReducer_def action_types lodash_set_def Let_def propsAt_append_new
        split: sum.splits)

lemma writeProp_append_first:
  "writeProp (h @ x # ys) (length h) k v = h @ x\<lparr>members := setProp (members x) k v\<rparr> # ys"
  by (simp add: writeProp_def)

lemma writeProp_append_second:
  "writeProp (h @ [x, y]) (Suc (length h)) k v = h @ [x, y\<lparr>members := setProp (members y) k v\<rparr>]"
proof -
  have "writeProp ((h @ [x]) @ y # []) (length (h @ [x])) k v =
          (h @ [x]) @ y\<lparr>members := setProp (members y) k v\<rparr> # []"
    by (rule writeProp_append_first)
  then show ?thesis by simp
qed

lemma readProp_append_first: "readProp (h @ x # ys) (length h) k = getProp (members x) k"
  by (simp add: readProp_def propsAt_def)

lemma reducer_variable_store:
  "type a = UPDATE_VARIABLE \<Longrightarrow>
   h' = baseSet (h @ [\<lparr>kind = PlainObject, members = propsAt h (variables state)\<rparr>])
          (length h) (castPath L (field a) (propsAt h (variables state))) (value a) \<Longrightarrow>
     assetDesignerReducer L state a h b =
       (case JSON_stringify L h' (JRef (length h)) of
          Inl e \<Rightarrow> (Inl e, h', b)
        | Inr text \<Rightarrow>
            (Inr (state\<lparr>variables := length h\<rparr>), h',
             updateQuery L h' ''variables'' (JStr text) b))"
proof -
  assume ty: "type a = UPDATE_VARIABLE"
    and h': "h' = baseSet (h @ [\<lparr>kind = PlainObject, members = propsAt h (variables state)\<rparr>])
          (length h) (castPath L (field a) (propsAt h (variables state))) (value a)"
  show ?thesis unfolding h' by (rule reducer_variable[OF ty])
qed

lemma reducer_variable_result:
  assumes ty: "type a = UPDATE_VARIABLE"
  shows "\<exists>res b'.
     assetDesignerReducer L state a h b =
       (res,
        baseSet (h @ [\<lparr>kind = PlainObject, members = propsAt h (variables state)\<rparr>])
          (length h) (castPath L (field a) (propsAt h (variables state))) (value a),
        b') \<and>
     res =
       (case JSON_stringify L
               (baseSet (h @ [\<lparr>kind = PlainObject, members = propsAt h (variables state)\<rparr>])
                  (length h) (castPath L (field a) (propsAt h (variables state))) (value a))
               (JRef (length h)) of
          Inl e \<Rightarrow> Inl e
        | Inr text \<Rightarrow> Inr (state\<lparr>variables := length h\<rparr>))"
  unfolding reducer_variable[OF ty]
  by (cases "JSON_stringify L
               (baseSet (h @ [\<lparr>kind = PlainObject, members = propsAt h (variables state)\<rparr>])
                  (length h) (castPath L (field a) (propsAt h (variables state))) (value a))
               (JRef (length h))") simp_all

lemma hasProp_setProp: "hasProp (setProp ps k v) k' = (k' = k \<or> hasProp ps k')"
  by (simp add: hasProp_def map_of_setProp)

lemma assign_last_wins:
  "i < length ps \<Longrightarrow> (\<forall>j. i < j \<and> j < length ps \<longrightarrow> fst (ps ! j) \<noteq> fst (ps ! i)) \<Longrightarrow>
     getProp (foldl (\<lambda>result (k, v). setProp result k v) [] ps) (fst (ps ! i)) = snd (ps ! i)"
proof (induction ps rule: rev_induct)
  case Nil
  then show ?case by simp
next
  case (snoc p ps)
  obtain k v where p: "p = (k, v)" by (cases p)
  show ?case
  proof (cases "i < length ps")
    case True
    from snoc.prems(2) have "i < length ps \<and> length ps < length (ps @ [p]) \<longrightarrow>
        fst ((ps @ [p]) ! length ps) \<noteq> fst ((ps @ [p]) ! i)"
      by (rule spec)
    with True have ne: "k \<noteq> fst (ps ! i)" by (simp add: p nth_append)
    have "\<forall>j. i < j \<and> j < length ps \<longrightarrow> fst (ps ! j) \<noteq> fst (ps ! i)"
    proof (intro allI impI)
      fix j assume j: "i < j \<and> j < length ps"
      from snoc.prems(2) have "i < j \<and> j < length (ps @ [p]) \<longrightarrow>
          fst ((ps @ [p]) ! j) \<noteq> fst ((ps @ [p]) ! i)"
        by (rule spec)
      with j True show "fst (ps ! j) \<noteq> fst (ps ! i)" by (simp add: nth_append)
    qed
    with snoc.IH True
    have "getProp (foldl (\<lambda>result (k, v). setProp result k v) [] ps) (fst (ps ! i)) = snd (ps ! i)"
      by simp
    with ne True show ?thesis by (simp add: p getProp_setProp nth_append)
  next
    case False
    with snoc.prems(1) have "i = length ps" by simp
    then show ?thesis by (simp add: p getProp_setProp)
  qed
qed

lemma assign_keys:
  "hasProp (foldl (\<lambda>result (k, v). setProp result k v) [] ps) k = (k \<in> fst ` set ps)"
proof (induction ps rule: rev_induct)
  case Nil
  then show ?case by (simp add: hasProp_def)
next
  case (snoc p ps)
  then show ?case by (cases p) (auto simp: hasProp_setProp)
qed

lemma lodash_get_default: "lodash_get L h (JRef r) ''default'' = readProp h r ''default''"
  by (simp add: lodash_get_def castPath_def isKey_def reIsPlainProp_def isWordChar_def)

lemma initDesignerState_seeds:
  "getSelection R sid = Some sel \<Longrightarrow> variableDescriptors sel = Some vs \<Longrightarrow>
     initDesignerState L R sid h =
       (Inr \<lparr>themeId = JStr [], selectionId = sid, variables = length h\<rparr>,
        h @ [\<lparr>kind = PlainObject,
               members =
                 foldl (\<lambda>result (k, v). setProp result k v) []
                   (map (\<lambda>d. (variable_id d, lodash_get L h (validation d) ''default'')) vs)\<rparr>])"
  by (simp add: initDesignerState_def fromPairs_def)

subsection \<open>The reducer\<close>

text \<open>
  C1, as the reducer has it, on a store in which every reference is to an object of the
  store. For each of the three action types the reducer gives the input state with one part
  written. For \<^verbatim>\<open>UPDATE_SELECTION_ID\<close> and \<^verbatim>\<open>UPDATE_THEME_ID\<close> the field holds the
  action's value and the store is as it was, so at most one top-level field differs from
  the input, and none when the value written is the one already there. For
  \<^verbatim>\<open>UPDATE_VARIABLE\<close> it returns the state with a new variables object, or throws what
  \<^verbatim>\<open>JSON.stringify\<close> throws on that object. With \<open>p\<close> the path of the field:
  \<^item> without a key in \<open>p\<close>, the store is the input store and the copy of the variables;
  \<^item> the new variables object has the properties of the input's variables, in their
    order, with the one under the first key of \<open>p\<close> set;
  \<^item> every object that was there before the call and is not reached from the input's
    variables along a proper prefix of \<open>p\<close> is as it was.

  And where \<open>p\<close> reaches no object twice:
  \<^item> the new variables read the action's value at \<open>p\<close>;
  \<^item> at every level of \<open>p\<close>, the new variables read beside the key of \<open>p\<close> what the
    input's variables read there before the call, so every other entry, and every other
    property of an object on the path, holds the same value or the same object;
  \<^item> the objects the input's variables have along \<open>p\<close> are the objects the new variables
    have there: they are written in place and not copied;
  \<^item> so the input state reads the action's value at \<open>p\<close> too, when \<open>p\<close> has several keys
    and the entry under the first is an object (the input's variables object not being
    itself on the path).
\<close>

theorem reducer_frame:
  assumes wf: "wellFormed h"
    and valid: "type a = UPDATE_SELECTION_ID \<or> type a = UPDATE_THEME_ID \<or> type a = UPDATE_VARIABLE"
  shows
    "let p = castPath L (field a) (propsAt h (variables state));
         copied = h @ [\<lparr>kind = PlainObject, members = propsAt h (variables state)\<rparr>]
     in \<exists>res h' b'.
       assetDesignerReducer L state a h b = (res, h', b') \<and>
       (type a = UPDATE_SELECTION_ID \<longrightarrow> res = Inr (state\<lparr>selectionId := value a\<rparr>) \<and> h' = h) \<and>
       (type a = UPDATE_THEME_ID \<longrightarrow> res = Inr (state\<lparr>themeId := value a\<rparr>) \<and> h' = h) \<and>
       (type a = UPDATE_VARIABLE \<longrightarrow>
          res = (case JSON_stringify L h' (JRef (length h)) of
                   Inl e \<Rightarrow> Inl e
                 | Inr text \<Rightarrow> Inr (state\<lparr>variables := length h\<rparr>)) \<and>
          (p = [] \<longrightarrow> h' = copied) \<and>
          (\<forall>k ks. p = k # ks \<longrightarrow>
             h' ! length h =
               \<lparr>kind = PlainObject,
                members = setProp (propsAt h (variables state)) k (readProp h' (length h) k)\<rparr>) \<and>
          (\<forall>r. r < length h \<and>
             (\<forall>q. q \<noteq> [] \<and> strict_prefix q p \<longrightarrow> baseGet h (JRef (variables state)) q \<noteq> JRef r) \<longrightarrow>
             h' ! r = h ! r) \<and>
          (distinct (pathObjects copied (length h) p) \<longrightarrow>
             (p \<noteq> [] \<longrightarrow> baseGet h' (JRef (length h)) p = value a) \<and>
             (\<forall>q k. strict_prefix q p \<and> k \<noteq> p ! length q \<longrightarrow>
                baseGet h' (JRef (length h)) (q @ [k]) =
                  baseGet h (JRef (variables state)) (q @ [k])) \<and>
             (\<forall>q r. q \<noteq> [] \<and> strict_prefix q p \<and> baseGet h (JRef (variables state)) q = JRef r \<longrightarrow>
                baseGet h' (JRef (length h)) q = JRef r) \<and>
             (\<forall>r. 2 \<le> length p \<and> readProp h (variables state) (hd p) = JRef r \<and>
                  variables state \<notin> set (pathObjects copied (length h) p) \<longrightarrow>
                baseGet h' (JRef (variables state)) p = value a)))"
proof -
  from valid consider (sel) "type a = UPDATE_SELECTION_ID" | (theme) "type a = UPDATE_THEME_ID"
    | (var) "type a = UPDATE_VARIABLE" by blast
  then show ?thesis
  proof cases
    case sel
    then show ?thesis by (simp add: assetDesignerReducer_def action_types Let_def)
  next
    case theme
    then show ?thesis by (simp add: assetDesignerReducer_def action_types Let_def)
  next
    case var
    have ne: "type a \<noteq> UPDATE_SELECTION_ID" "type a \<noteq> UPDATE_THEME_ID"
      using var by (simp_all add: action_types)
    let ?v = "variables state"
    let ?n = "length h"
    let ?p = "castPath L (field a) (propsAt h ?v)"
    let ?c = "h @ [\<lparr>kind = PlainObject, members = propsAt h ?v\<rparr>]"
    let ?h' = "baseSet ?c ?n ?p (value a)"
    have nv: "?n < length ?c" by simp
    have wfc: "wellFormed ?c" using wf by (rule wellFormed_copy)
    have noref: "\<And>r k. readProp ?c r k \<noteq> JRef ?n" using wf by (rule copy_no_ref)
    from reducer_variable_result[OF var, of L state h b]
    obtain res b' where red: "assetDesignerReducer L state a h b = (res, ?h', b')"
      and tie: "res = (case JSON_stringify L ?h' (JRef ?n) of
                         Inl e \<Rightarrow> Inl e | Inr text \<Rightarrow> Inr (state\<lparr>variables := ?n\<rparr>))"
      by blast
    have empty: "?p = [] \<longrightarrow> ?h' = ?c" by simp
    have top: "\<forall>k ks. ?p = k # ks \<longrightarrow>
        ?h' ! ?n = \<lparr>kind = PlainObject, members = setProp (propsAt h ?v) k (readProp ?h' ?n k)\<rparr>"
    proof (intro allI impI)
      fix k ks assume p: "?p = k # ks"
      from top_object[OF noref nv, of k ks "value a"] p
      show "?h' ! ?n = \<lparr>kind = PlainObject, members = setProp (propsAt h ?v) k (readProp ?h' ?n k)\<rparr>"
        by simp
    qed
    have frame: "\<forall>r. r < ?n \<and>
           (\<forall>q. q \<noteq> [] \<and> strict_prefix q ?p \<longrightarrow> baseGet h (JRef ?v) q \<noteq> JRef r) \<longrightarrow>
           ?h' ! r = h ! r"
    proof (intro allI impI)
      fix r
      assume a: "r < ?n \<and>
           (\<forall>q. q \<noteq> [] \<and> strict_prefix q ?p \<longrightarrow> baseGet h (JRef ?v) q \<noteq> JRef r)"
      then have r: "r < ?n" by simp
      have "r \<notin> set (pathObjects ?c ?n ?p)"
      proof
        assume mem: "r \<in> set (pathObjects ?c ?n ?p)"
        from pathObjects_reached[OF wfc nv mem] r
        obtain q where q: "q \<noteq> []" "strict_prefix q ?p" "baseGet ?c (JRef ?n) q = JRef r"
          by auto
        from q(3) copy_baseGet[OF wf q(1)] have "baseGet h (JRef ?v) q = JRef r" by simp
        with a q(1,2) show False by blast
      qed
      then have "?h' ! r = ?c ! r" using r by (intro baseSet_frame) simp_all
      with r show "?h' ! r = h ! r" by (simp add: nth_append)
    qed
    have path: "distinct (pathObjects ?c ?n ?p) \<longrightarrow>
             (?p \<noteq> [] \<longrightarrow> baseGet ?h' (JRef ?n) ?p = value a) \<and>
             (\<forall>q k. strict_prefix q ?p \<and> k \<noteq> ?p ! length q \<longrightarrow>
                baseGet ?h' (JRef ?n) (q @ [k]) = baseGet h (JRef ?v) (q @ [k])) \<and>
             (\<forall>q r. q \<noteq> [] \<and> strict_prefix q ?p \<and> baseGet h (JRef ?v) q = JRef r \<longrightarrow>
                baseGet ?h' (JRef ?n) q = JRef r) \<and>
             (\<forall>r. 2 \<le> length ?p \<and> readProp h ?v (hd ?p) = JRef r \<and>
                  ?v \<notin> set (pathObjects ?c ?n ?p) \<longrightarrow>
                baseGet ?h' (JRef ?v) ?p = value a)"
    proof
      assume d: "distinct (pathObjects ?c ?n ?p)"
      have written: "?p \<noteq> [] \<longrightarrow> baseGet ?h' (JRef ?n) ?p = value a"
        using baseGet_baseSet_same[OF d wfc nv] by simp
      have siblings: "\<forall>q k. strict_prefix q ?p \<and> k \<noteq> ?p ! length q \<longrightarrow>
                baseGet ?h' (JRef ?n) (q @ [k]) = baseGet h (JRef ?v) (q @ [k])"
      proof (intro allI impI)
        fix q k assume a: "strict_prefix q ?p \<and> k \<noteq> ?p ! length q"
        then have "baseGet ?h' (JRef ?n) (q @ [k]) = baseGet ?c (JRef ?n) (q @ [k])"
          by (intro baseSet_siblings[OF d wfc nv]) simp_all
        also have "\<dots> = baseGet h (JRef ?v) (q @ [k])" using wf by (rule copy_baseGet) simp
        finally show "baseGet ?h' (JRef ?n) (q @ [k]) = baseGet h (JRef ?v) (q @ [k])" .
      qed
      have shared: "\<forall>q r. q \<noteq> [] \<and> strict_prefix q ?p \<and> baseGet h (JRef ?v) q = JRef r \<longrightarrow>
                baseGet ?h' (JRef ?n) q = JRef r"
      proof (intro allI impI)
        fix q r assume a: "q \<noteq> [] \<and> strict_prefix q ?p \<and> baseGet h (JRef ?v) q = JRef r"
        then have q: "q \<noteq> []" and sp: "strict_prefix q ?p" by simp_all
        from a copy_baseGet[OF wf q] have old: "baseGet ?c (JRef ?n) q = JRef r" by simp
        from baseSet_path_objects[OF d wfc nv q sp, of "value a"] old
        show "baseGet ?h' (JRef ?n) q = JRef r" by auto
      qed
      have input: "\<forall>r. 2 \<le> length ?p \<and> readProp h ?v (hd ?p) = JRef r \<and>
                  ?v \<notin> set (pathObjects ?c ?n ?p) \<longrightarrow>
                baseGet ?h' (JRef ?v) ?p = value a"
      proof (intro allI impI)
        fix r
        assume a: "2 \<le> length ?p \<and> readProp h ?v (hd ?p) = JRef r \<and>
                  ?v \<notin> set (pathObjects ?c ?n ?p)"
        then obtain k k1 rest where p: "?p = k # k1 # rest"
          by (cases ?p; cases "tl ?p") auto
        from a p have rd: "readProp h ?v k = JRef r"
          and nn: "?v \<notin> set (pathObjects ?c ?n ?p)" by simp_all
        from rd have v: "?v < ?n" using readProp_in_store[of h ?v k] by simp
        then have vc: "?v < length ?c" by simp
        from readProp_frame[OF nn vc, of "value a" k] v rd
        have old: "readProp ?h' ?v k = JRef r" by (simp add: readProp_append_old)
        have "strict_prefix [k] ?p" using p by simp
        moreover have "baseGet h (JRef ?v) [k] = JRef r" using rd by simp
        ultimately have "baseGet ?h' (JRef ?n) [k] = JRef r" using shared by blast
        then have new: "readProp ?h' ?n k = JRef r" by simp
        from written p have "baseGet ?h' (JRef ?n) (k # k1 # rest) = value a" by simp
        with new have "baseGet ?h' (JRef r) (k1 # rest) = value a" by simp
        with old have "baseGet ?h' (JRef ?v) (k # k1 # rest) = value a" by simp
        with p show "baseGet ?h' (JRef ?v) ?p = value a" by simp
      qed
      from written siblings shared input
      show "(?p \<noteq> [] \<longrightarrow> baseGet ?h' (JRef ?n) ?p = value a) \<and>
             (\<forall>q k. strict_prefix q ?p \<and> k \<noteq> ?p ! length q \<longrightarrow>
                baseGet ?h' (JRef ?n) (q @ [k]) = baseGet h (JRef ?v) (q @ [k])) \<and>
             (\<forall>q r. q \<noteq> [] \<and> strict_prefix q ?p \<and> baseGet h (JRef ?v) q = JRef r \<longrightarrow>
                baseGet ?h' (JRef ?n) q = JRef r) \<and>
             (\<forall>r. 2 \<le> length ?p \<and> readProp h ?v (hd ?p) = JRef r \<and>
                  ?v \<notin> set (pathObjects ?c ?n ?p) \<longrightarrow>
                baseGet ?h' (JRef ?v) ?p = value a)"
        by (intro conjI)
    qed
    show ?thesis
      unfolding Let_def
    proof (rule exI[of _ res], rule exI[of _ ?h'], rule exI[of _ b'], intro conjI)
      show "assetDesignerReducer L state a h b = (res, ?h', b')" by (rule red)
    qed (use ne tie empty top frame path in blast)+
  qed
qed

theorem reducer_frame_witness:
  "wellFormed
     [\<lparr>kind = PlainObject, members = [(''a'', JRef 1), (''d'', JNum 3)]\<rparr>,
      \<lparr>kind = PlainObject, members = [(''b'', JNum 1), (''c'', JNum 2)]\<rparr>] \<and>
   type \<lparr>type = UPDATE_VARIABLE, field = ''a.b'', value = JNum 5\<rparr> = UPDATE_VARIABLE \<and>
   castPath exampleLibs ''a.b'' [(''a'', JRef 1), (''d'', JNum 3)] = [''a'', ''b''] \<and>
   pathObjects
     [\<lparr>kind = PlainObject, members = [(''a'', JRef 1), (''d'', JNum 3)]\<rparr>,
      \<lparr>kind = PlainObject, members = [(''b'', JNum 1), (''c'', JNum 2)]\<rparr>,
      \<lparr>kind = PlainObject, members = [(''a'', JRef 1), (''d'', JNum 3)]\<rparr>] 2 [''a'', ''b''] = [2, 1] \<and>
   (case assetDesignerReducer exampleLibs
           \<lparr>themeId = JStr ''dark'', selectionId = JStr ''talk'', variables = 0\<rparr>
           \<lparr>type = UPDATE_VARIABLE, field = ''a.b'', value = JNum 5\<rparr>
           [\<lparr>kind = PlainObject, members = [(''a'', JRef 1), (''d'', JNum 3)]\<rparr>,
            \<lparr>kind = PlainObject, members = [(''b'', JNum 1), (''c'', JNum 2)]\<rparr>]
           \<lparr>search = [], pushed = []\<rparr>
    of (res, h', b') \<Rightarrow>
         (res, h',
          baseGet h' (JRef 2) [''a'', ''b''],
          baseGet h' (JRef 2) [''a'', ''c''],
          baseGet h' (JRef 2) [''d''],
          baseGet h' (JRef 0) [''a'', ''b''])) =
     (Inr \<lparr>themeId = JStr ''dark'', selectionId = JStr ''talk'', variables = 2\<rparr>,
      [\<lparr>kind = PlainObject, members = [(''a'', JRef 1), (''d'', JNum 3)]\<rparr>,
       \<lparr>kind = PlainObject, members = [(''b'', JNum 5), (''c'', JNum 2)]\<rparr>,
       \<lparr>kind = PlainObject, members = [(''a'', JRef 1), (''d'', JNum 3)]\<rparr>],
      JNum 5, JNum 2, JNum 3, JNum 5)"
proof -
  have wf: "wellFormed
     [\<lparr>kind = PlainObject, members = [(''a'', JRef 1), (''d'', JNum 3)]\<rparr>,
      \<lparr>kind = PlainObject, members = [(''b'', JNum 1), (''c'', JNum 2)]\<rparr>]"
    by (simp add: wellFormed_def)
  have ty: "type \<lparr>type = UPDATE_VARIABLE, field = ''a.b'', value = JNum 5\<rparr> = UPDATE_SELECTION_ID \<or>
            type \<lparr>type = UPDATE_VARIABLE, field = ''a.b'', value = JNum 5\<rparr> = UPDATE_THEME_ID \<or>
            type \<lparr>type = UPDATE_VARIABLE, field = ''a.b'', value = JNum 5\<rparr> = UPDATE_VARIABLE"
    by simp
  from reducer_frame[OF wf ty, of exampleLibs
      "\<lparr>themeId = JStr ''dark'', selectionId = JStr ''talk'', variables = 0\<rparr>"
      "\<lparr>search = [], pushed = []\<rparr>"] wf
  show ?thesis
    by (simp add: assetDesignerReducer_def action_types lodash_set_def path_defs store_defs
          exampleLibs_def Let_def)
qed

text \<open>
  C1 as stated fails in two ways. Where the value written is the value already held, the
  returned state equals the input and no field differs. And where two entries hold the
  same object, writing below one of them changes what the other reads: with
  \<^verbatim>\<open>a\<close> and \<^verbatim>\<open>b\<close> holding one object, the update of \<^verbatim>\<open>a.x\<close> changes \<^verbatim>\<open>b.x\<close>
  from 0 to 1 in the new state, and \<^verbatim>\<open>a.x\<close> in the input state as well.
\<close>

theorem reducer_shared_object_counterexample:
  "(case assetDesignerReducer exampleLibs
           \<lparr>themeId = JStr ''dark'', selectionId = JStr ''talk'', variables = 2\<rparr>
           \<lparr>type = UPDATE_THEME_ID, field = ''conferenceSeriesId'', value = JStr ''dark''\<rparr>
           exampleStore \<lparr>search = [], pushed = []\<rparr>
    of (res, h', b') \<Rightarrow> (res, h')) =
     (Inr \<lparr>themeId = JStr ''dark'', selectionId = JStr ''talk'', variables = 2\<rparr>, exampleStore) \<and>
   (case assetDesignerReducer exampleLibs
           \<lparr>themeId = JStr ''dark'', selectionId = JStr ''talk'', variables = 0\<rparr>
           \<lparr>type = UPDATE_VARIABLE, field = ''a.x'', value = JNum 1\<rparr>
           [\<lparr>kind = PlainObject, members = [(''a'', JRef 1), (''b'', JRef 1)]\<rparr>,
            \<lparr>kind = PlainObject, members = [(''x'', JNum 0)]\<rparr>]
           \<lparr>search = [], pushed = []\<rparr>
    of (res, h', b') \<Rightarrow>
         (res, h',
          baseGet [\<lparr>kind = PlainObject, members = [(''a'', JRef 1), (''b'', JRef 1)]\<rparr>,
                   \<lparr>kind = PlainObject, members = [(''x'', JNum 0)]\<rparr>]
            (JRef 0) [''b'', ''x''],
          baseGet h' (JRef 2) [''b'', ''x''],
          baseGet h' (JRef 0) [''a'', ''x''])) =
     (Inr \<lparr>themeId = JStr ''dark'', selectionId = JStr ''talk'', variables = 2\<rparr>,
      [\<lparr>kind = PlainObject, members = [(''a'', JRef 1), (''b'', JRef 1)]\<rparr>,
       \<lparr>kind = PlainObject, members = [(''x'', JNum 1)]\<rparr>,
       \<lparr>kind = PlainObject, members = [(''a'', JRef 1), (''b'', JRef 1)]\<rparr>],
      JNum 0, JNum 1, JNum 1)"
  by (simp add: assetDesignerReducer_def action_types lodash_set_def path_defs store_defs
        exampleLibs_def Let_def)

text \<open>
  C4, as the reducer has it. In each case the reducer returns the state with the new
  variables object unless \<^verbatim>\<open>JSON.stringify\<close> throws on that object, and then it throws
  the same.
  \<^item> On a state whose variables have no properties, the update of \<^verbatim>\<open>a.b\<close> to 5 leaves
    the store with two new objects, the variables \<^verbatim>\<open>{ a: { b: 5 } }\<close> of the new state.
  \<^item> When the variables already have a property named as the whole field, the store is
    left with one new object, the copy of the variables with that property set to the
    value: no nested object is made.
  \<^item> Otherwise, for a field written without brackets, the value is read back from the new
    variables along the pieces between the dots of the field, and under every proper
    prefix of that path the new variables hold an object: the one the input's variables
    hold there, or a new one where they hold none. This is for a path that reaches no
    object twice (as in any data without cycles), on a store in which every reference is
    to an object of the store.
\<close>

theorem update_variable_writes_path:
  "let copied = h @ [\<lparr>kind = PlainObject, members = propsAt h (variables state)\<rparr>];
       expected = h @ [\<lparr>kind = PlainObject, members = [(''a'', JRef (Suc (length h)))]\<rparr>,
                       \<lparr>kind = PlainObject, members = [(''b'', JNum 5)]\<rparr>];
       returned = (\<lambda>h'. case JSON_stringify L h' (JRef (length h)) of
                            Inl e \<Rightarrow> Inl e
                          | Inr text \<Rightarrow> Inr (state\<lparr>variables := length h\<rparr>))
   in
   (propsAt h (variables state) = [] \<longrightarrow>
      (\<exists>b'. assetDesignerReducer L state
                \<lparr>type = UPDATE_VARIABLE, field = ''a.b'', value = JNum 5\<rparr> h b =
              (returned expected, expected, b'))) \<and>
   (\<forall>a. type a = UPDATE_VARIABLE \<and> hasProp (propsAt h (variables state)) (field a) \<longrightarrow>
      (\<exists>h' b'.
         assetDesignerReducer L state a h b = (returned h', h', b') \<and>
         h' = h @ [\<lparr>kind = PlainObject,
                     members = setProp (propsAt h (variables state)) (field a) (value a)\<rparr>])) \<and>
   (\<forall>a. type a = UPDATE_VARIABLE \<and> \<not> hasProp (propsAt h (variables state)) (field a) \<and>
        \<not> hasBracket (field a) \<and> wellFormed h \<and>
        distinct (pathObjects copied (length h) (splitDots (field a))) \<longrightarrow>
      (\<exists>h' b'.
         assetDesignerReducer L state a h b = (returned h', h', b') \<and>
         baseGet h' (JRef (length h)) (splitDots (field a)) = value a \<and>
         (\<forall>q. q \<noteq> [] \<and> strict_prefix q (splitDots (field a)) \<longrightarrow>
            (\<exists>r. baseGet h' (JRef (length h)) q = JRef r \<and>
                 (case baseGet h (JRef (variables state)) q of
                    JRef r0 \<Rightarrow> r = r0
                  | _ \<Rightarrow> length h < r)))))"
  unfolding Let_def
proof (intro conjI allI impI)
  assume e: "propsAt h (variables state) = []"
  let ?a = "\<lparr>type = UPDATE_VARIABLE, field = ''a.b'', value = JNum 5\<rparr>"
  let ?h' = "h @ [\<lparr>kind = PlainObject, members = [(''a'', JRef (Suc (length h)))]\<rparr>,
                  \<lparr>kind = PlainObject, members = [(''b'', JNum 5)]\<rparr>]"
  have ty: "type ?a = UPDATE_VARIABLE" by simp
  have p: "castPath L ''a.b'' [] = [''a'', ''b'']" by (simp add: path_defs)
  have nb: "newObject ''b'' = \<lparr>kind = PlainObject, members = []\<rparr>"
    by (simp add: newObject_def path_defs)
  have set: "baseSet (h @ [\<lparr>kind = PlainObject, members = []\<rparr>]) (length h) [''a'', ''b''] (JNum 5) =
      ?h'"
    using writeProp_append_first[of h "\<lparr>kind = PlainObject, members = []\<rparr>"
        "[\<lparr>kind = PlainObject, members = []\<rparr>]" "''a''" "JRef (Suc (length h))"]
    by (simp add: readProp_append_first getProp_def nb writeProp_append_second)
  from reducer_variable_result[OF ty, of L state h b]
  show "\<exists>b'. assetDesignerReducer L state ?a h b =
          (case JSON_stringify L ?h' (JRef (length h)) of
             Inl e \<Rightarrow> Inl e
           | Inr text \<Rightarrow> Inr (state\<lparr>variables := length h\<rparr>),
           ?h', b')"
    by (simp add: e p set del: baseSet.simps)
next
  fix a :: action
  assume h: "type a = UPDATE_VARIABLE \<and> hasProp (propsAt h (variables state)) (field a)"
  then have ty: "type a = UPDATE_VARIABLE" by simp
  let ?c = "h @ [\<lparr>kind = PlainObject, members = propsAt h (variables state)\<rparr>]"
  let ?h' = "h @ [\<lparr>kind = PlainObject,
                   members = setProp (propsAt h (variables state)) (field a) (value a)\<rparr>]"
  have "baseSet ?c (length h) (castPath L (field a) (propsAt h (variables state))) (value a) = ?h'"
    using h writeProp_append_first[of h "\<lparr>kind = PlainObject, members = propsAt h (variables state)\<rparr>"
        "[]" "field a" "value a"]
    by (simp add: castPath_key)
  with reducer_variable_result[OF ty, of L state h b]
  show "\<exists>h' b'.
         assetDesignerReducer L state a h b =
           (case JSON_stringify L h' (JRef (length h)) of
              Inl e \<Rightarrow> Inl e
            | Inr text \<Rightarrow> Inr (state\<lparr>variables := length h\<rparr>),
            h', b') \<and>
         h' = ?h'"
    by (simp del: baseSet.simps)
next
  fix a :: action
  let ?v = "variables state"
  let ?n = "length h"
  let ?c = "h @ [\<lparr>kind = PlainObject, members = propsAt h ?v\<rparr>]"
  let ?p = "splitDots (field a)"
  assume h: "type a = UPDATE_VARIABLE \<and> \<not> hasProp (propsAt h ?v) (field a) \<and>
        \<not> hasBracket (field a) \<and> wellFormed h \<and> distinct (pathObjects ?c ?n ?p)"
  then have ty: "type a = UPDATE_VARIABLE" and wf: "wellFormed h"
    and d: "distinct (pathObjects ?c ?n ?p)" by simp_all
  from h have p: "castPath L (field a) (propsAt h ?v) = ?p" by (simp add: castPath_dotted)
  let ?h' = "baseSet ?c ?n ?p (value a)"
  have wfc: "wellFormed ?c" using wf by (rule wellFormed_copy)
  have nv: "?n < length ?c" by simp
  have written: "baseGet ?h' (JRef ?n) ?p = value a"
    using d wfc nv by (rule baseGet_baseSet_same) (rule splitDots_nonempty)
  have objects: "\<forall>q. q \<noteq> [] \<and> strict_prefix q ?p \<longrightarrow>
            (\<exists>r. baseGet ?h' (JRef ?n) q = JRef r \<and>
                 (case baseGet h (JRef ?v) q of JRef r0 \<Rightarrow> r = r0 | _ \<Rightarrow> ?n < r))"
  proof (intro allI impI)
    fix q assume a: "q \<noteq> [] \<and> strict_prefix q ?p"
    then have q: "q \<noteq> []" and sp: "strict_prefix q ?p" by simp_all
    from baseSet_path_objects[OF d wfc nv q sp, of "value a"]
    obtain r where r: "baseGet ?h' (JRef ?n) q = JRef r"
      and c: "case baseGet ?c (JRef ?n) q of JRef r0 \<Rightarrow> r = r0 | _ \<Rightarrow> length ?c \<le> r"
      by blast
    from c copy_baseGet[OF wf q, of PlainObject ?v]
    have "case baseGet h (JRef ?v) q of JRef r0 \<Rightarrow> r = r0 | _ \<Rightarrow> ?n < r"
      by (cases "baseGet h (JRef ?v) q") simp_all
    with r show "\<exists>r. baseGet ?h' (JRef ?n) q = JRef r \<and>
                 (case baseGet h (JRef ?v) q of JRef r0 \<Rightarrow> r = r0 | _ \<Rightarrow> ?n < r)"
      by blast
  qed
  from reducer_variable_result[OF ty, of L state h b]
  obtain res b' where red: "assetDesignerReducer L state a h b = (res, ?h', b')"
    and tie: "res = (case JSON_stringify L ?h' (JRef ?n) of
                       Inl e \<Rightarrow> Inl e | Inr text \<Rightarrow> Inr (state\<lparr>variables := ?n\<rparr>))"
    unfolding p by blast
  show "\<exists>h' b'.
         assetDesignerReducer L state a h b =
           (case JSON_stringify L h' (JRef ?n) of
              Inl e \<Rightarrow> Inl e
            | Inr text \<Rightarrow> Inr (state\<lparr>variables := ?n\<rparr>),
            h', b') \<and>
         baseGet h' (JRef ?n) ?p = value a \<and>
         (\<forall>q. q \<noteq> [] \<and> strict_prefix q ?p \<longrightarrow>
            (\<exists>r. baseGet h' (JRef ?n) q = JRef r \<and>
                 (case baseGet h (JRef ?v) q of JRef r0 \<Rightarrow> r = r0 | _ \<Rightarrow> ?n < r)))"
  proof (rule exI[of _ ?h'], rule exI[of _ b'], intro conjI)
    show "assetDesignerReducer L state a h b =
           (case JSON_stringify L ?h' (JRef ?n) of
              Inl e \<Rightarrow> Inl e
            | Inr text \<Rightarrow> Inr (state\<lparr>variables := ?n\<rparr>),
            ?h', b')"
      using red tie by simp
  qed (rule written, rule objects)
qed

theorem update_variable_writes_path_witness:
  "propsAt exampleStore 2 = [] \<and>
   assetDesignerReducer exampleLibs
       \<lparr>themeId = JStr [], selectionId = JStr ''talk'', variables = 2\<rparr>
       \<lparr>type = UPDATE_VARIABLE, field = ''a.b'', value = JNum 5\<rparr> exampleStore
       \<lparr>search = ''?selectionId=talk'', pushed = []\<rparr> =
     (Inr \<lparr>themeId = JStr [], selectionId = JStr ''talk'', variables = 4\<rparr>,
      exampleStore @
        [\<lparr>kind = PlainObject, members = [(''a'', JRef 5)]\<rparr>,
         \<lparr>kind = PlainObject, members = [(''b'', JNum 5)]\<rparr>],
      \<lparr>search = ''?selectionId=talk&variables=%7B%22a%22%3A%7B%22b%22%3A5%7D%7D'',
       pushed = [''?selectionId=talk&variables=%7B%22a%22%3A%7B%22b%22%3A5%7D%7D'']\<rparr>) \<and>
   hasProp (propsAt exampleStore 3) ''color'' \<and>
   (case assetDesignerReducer exampleLibs
           \<lparr>themeId = JStr [], selectionId = JStr ''talk'', variables = 3\<rparr>
           \<lparr>type = UPDATE_VARIABLE, field = ''color'', value = JStr ''blue''\<rparr> exampleStore
           \<lparr>search = [], pushed = []\<rparr>
    of (res, h', b') \<Rightarrow> (res, h')) =
     (Inr \<lparr>themeId = JStr [], selectionId = JStr ''talk'', variables = 4\<rparr>,
      exampleStore @ [\<lparr>kind = PlainObject, members = [(''color'', JStr ''blue'')]\<rparr>]) \<and>
   wellFormed
     [\<lparr>kind = PlainObject, members = [(''speaker'', JRef 1)]\<rparr>,
      \<lparr>kind = PlainObject, members = [(''name'', JNull), (''age'', JNum 36)]\<rparr>] \<and>
   \<not> hasProp [(''speaker'', JRef 1)] ''speaker.name'' \<and>
   \<not> hasBracket ''speaker.name'' \<and>
   splitDots ''speaker.name'' = [''speaker'', ''name''] \<and>
   distinct (pathObjects
     [\<lparr>kind = PlainObject, members = [(''speaker'', JRef 1)]\<rparr>,
      \<lparr>kind = PlainObject, members = [(''name'', JNull), (''age'', JNum 36)]\<rparr>,
      \<lparr>kind = PlainObject, members = [(''speaker'', JRef 1)]\<rparr>] 2 [''speaker'', ''name'']) \<and>
   (case assetDesignerReducer exampleLibs
           \<lparr>themeId = JStr [], selectionId = JStr ''talk'', variables = 0\<rparr>
           \<lparr>type = UPDATE_VARIABLE, field = ''speaker.name'', value = JStr ''Ada''\<rparr>
           [\<lparr>kind = PlainObject, members = [(''speaker'', JRef 1)]\<rparr>,
            \<lparr>kind = PlainObject, members = [(''name'', JNull), (''age'', JNum 36)]\<rparr>]
           \<lparr>search = [], pushed = []\<rparr>
    of (res, h', b') \<Rightarrow>
         (res, h', baseGet h' (JRef 2) [''speaker'', ''name''], baseGet h' (JRef 2) [''speaker''])) =
     (Inr \<lparr>themeId = JStr [], selectionId = JStr ''talk'', variables = 2\<rparr>,
      [\<lparr>kind = PlainObject, members = [(''speaker'', JRef 1)]\<rparr>,
       \<lparr>kind = PlainObject, members = [(''name'', JStr ''Ada''), (''age'', JNum 36)]\<rparr>,
       \<lparr>kind = PlainObject, members = [(''speaker'', JRef 1)]\<rparr>],
      JStr ''Ada'', JRef 1)"
  using update_variable_writes_path[of exampleStore
      "\<lparr>themeId = JStr [], selectionId = JStr ''talk'', variables = 2\<rparr>" exampleLibs
      "\<lparr>search = ''?selectionId=talk'', pushed = []\<rparr>"]
  by (simp add: assetDesignerReducer_def action_types lodash_set_def path_defs store_defs
        exampleLibs_def exampleStore_def updateQuery_def wellFormed_def Let_def)

text \<open>
  C4 as stated fails where the dotted field is itself a key of the variables (as it is after
  a variable with a dotted id has been seeded): the update then overwrites that key and
  builds no nested objects, so the path \<^verbatim>\<open>a\<close>, \<^verbatim>\<open>b\<close> still reads \<^verbatim>\<open>undefined\<close>.
\<close>

theorem update_variable_existing_key_counterexample:
  "(case assetDesignerReducer exampleLibs
           \<lparr>themeId = JStr [], selectionId = JStr ''talk'', variables = 0\<rparr>
           \<lparr>type = UPDATE_VARIABLE, field = ''a.b'', value = JNum 5\<rparr>
           [\<lparr>kind = PlainObject, members = [(''a.b'', JNum 1)]\<rparr>]
           \<lparr>search = [], pushed = []\<rparr>
    of (res, h', b') \<Rightarrow> (res, h', baseGet h' (JRef 1) [''a'', ''b''])) =
     (Inr \<lparr>themeId = JStr [], selectionId = JStr ''talk'', variables = 1\<rparr>,
      [\<lparr>kind = PlainObject, members = [(''a.b'', JNum 1)]\<rparr>,
       \<lparr>kind = PlainObject, members = [(''a.b'', JNum 5)]\<rparr>],
      JUndefined)"
  by (simp add: assetDesignerReducer_def action_types lodash_set_def path_defs store_defs
        exampleLibs_def Let_def)

text \<open>
  C7. An action whose type is none of \<^verbatim>\<open>UPDATE_SELECTION_ID\<close>, \<^verbatim>\<open>UPDATE_THEME_ID\<close>
  and \<^verbatim>\<open>UPDATE_VARIABLE\<close> makes the reducer throw, whatever the state; the store and the
  browser are left as they were.
\<close>

theorem unknown_action_throws:
  "type a \<noteq> UPDATE_SELECTION_ID \<Longrightarrow> type a \<noteq> UPDATE_THEME_ID \<Longrightarrow>
   type a \<noteq> UPDATE_VARIABLE \<Longrightarrow>
     assetDesignerReducer L state a h b = (Inl (Error ''No matching reducer found!''), h, b)"
  by (simp add: assetDesignerReducer_def)

theorem unknown_action_throws_witness:
  "type \<lparr>type = JNum 3, field = [], value = JUndefined\<rparr> \<noteq> UPDATE_SELECTION_ID \<and>
   type \<lparr>type = JNum 3, field = [], value = JUndefined\<rparr> \<noteq> UPDATE_THEME_ID \<and>
   type \<lparr>type = JNum 3, field = [], value = JUndefined\<rparr> \<noteq> UPDATE_VARIABLE \<and>
   assetDesignerReducer exampleLibs
     \<lparr>themeId = JStr [], selectionId = JStr ''talk'', variables = 2\<rparr>
     \<lparr>type = JNum 3, field = [], value = JUndefined\<rparr> exampleStore
     \<lparr>search = [], pushed = []\<rparr>
     = (Inl (Error ''No matching reducer found!''), exampleStore, \<lparr>search = [], pushed = []\<rparr>)"
proof -
  have h: "type \<lparr>type = JNum 3, field = [], value = JUndefined\<rparr> \<noteq> UPDATE_SELECTION_ID"
          "type \<lparr>type = JNum 3, field = [], value = JUndefined\<rparr> \<noteq> UPDATE_THEME_ID"
          "type \<lparr>type = JNum 3, field = [], value = JUndefined\<rparr> \<noteq> UPDATE_VARIABLE"
    by (simp_all add: action_types)
  show ?thesis using h unknown_action_throws[OF h] by simp
qed

text \<open>
  C8. \<^verbatim>\<open>updateQuery\<close> pushes the query string that \<^verbatim>\<open>stringify\<close> makes of the parameters
  parsed from the current \<^verbatim>\<open>location.search\<close> with the field set to the value: in these
  parameters the field has the value, and every other parameter is what was parsed. A
  variable update that returns gives it, for the field \<^verbatim>\<open>variables\<close>, the text
  \<^verbatim>\<open>JSON.stringify\<close> makes of the whole variables object of the new state.
\<close>

theorem updateQuery_merges_field:
  "pushed (updateQuery L h fld v b) =
     pushed b @
       [CHR ''?'' # queryString_stringify L h (setProp (queryString_parse L (search b)) fld v)] \<and>
   search (updateQuery L h fld v b) =
     (if queryString_stringify L h (setProp (queryString_parse L (search b)) fld v) = [] then []
      else CHR ''?'' #
        queryString_stringify L h (setProp (queryString_parse L (search b)) fld v)) \<and>
   getProp (setProp (queryString_parse L (search b)) fld v) fld = v \<and>
   (\<forall>k. k \<noteq> fld \<longrightarrow>
      map_of (setProp (queryString_parse L (search b)) fld v) k =
      map_of (queryString_parse L (search b)) k) \<and>
   (\<forall>state a state' h' b'.
      type a = UPDATE_VARIABLE \<and> assetDesignerReducer L state a h b = (Inr state', h', b') \<longrightarrow>
      (\<exists>text. JSON_stringify L h' (JRef (variables state')) = Inr text \<and>
              b' = updateQuery L h' ''variables'' (JStr text) b))"
proof -
  have "\<forall>state a state' h' b'.
      type a = UPDATE_VARIABLE \<and> assetDesignerReducer L state a h b = (Inr state', h', b') \<longrightarrow>
      (\<exists>text. JSON_stringify L h' (JRef (variables state')) = Inr text \<and>
              b' = updateQuery L h' ''variables'' (JStr text) b)"
  proof (intro allI impI)
    fix state :: DesignerState and a :: action and state' h' b'
    assume a: "type a = UPDATE_VARIABLE \<and>
      assetDesignerReducer L state a h b = (Inr state', h', b')"
    then have ty: "type a = UPDATE_VARIABLE" by simp
    let ?h = "baseSet (h @ [\<lparr>kind = PlainObject, members = propsAt h (variables state)\<rparr>])
          (length h) (castPath L (field a) (propsAt h (variables state))) (value a)"
    from a reducer_variable_store[OF ty refl, of L state h b]
    show "\<exists>text. JSON_stringify L h' (JRef (variables state')) = Inr text \<and>
              b' = updateQuery L h' ''variables'' (JStr text) b"
      by (cases "JSON_stringify L ?h (JRef (length h))") auto
  qed
  then show ?thesis
    by (simp add: updateQuery_def Let_def getProp_setProp map_of_setProp)
qed

theorem updateQuery_merges_field_witness:
  \<open>updateQuery exampleLibs exampleStore ''themeId'' (JStr ''dark'')
      \<lparr>search = ''?selectionId=talk'', pushed = []\<rparr> =
     \<lparr>search = ''?selectionId=talk&themeId=dark'',
      pushed = [''?selectionId=talk&themeId=dark'']\<rparr> \<and>
   map_of (setProp (queryString_parse exampleLibs ''?selectionId=talk'') ''themeId'' (JStr ''dark''))
       ''selectionId'' =
     map_of (queryString_parse exampleLibs ''?selectionId=talk'') ''selectionId'' \<and>
   type \<lparr>type = UPDATE_VARIABLE, field = ''a.b'', value = JNum 5\<rparr> = UPDATE_VARIABLE \<and>
   assetDesignerReducer exampleLibs
       \<lparr>themeId = JStr [], selectionId = JStr ''talk'', variables = 0\<rparr>
       \<lparr>type = UPDATE_VARIABLE, field = ''a.b'', value = JNum 5\<rparr>
       [\<lparr>kind = PlainObject, members = []\<rparr>]
       \<lparr>search = ''?selectionId=talk'', pushed = []\<rparr> =
     (Inr \<lparr>themeId = JStr [], selectionId = JStr ''talk'', variables = 1\<rparr>,
      [\<lparr>kind = PlainObject, members = []\<rparr>,
       \<lparr>kind = PlainObject, members = [(''a'', JRef 2)]\<rparr>,
       \<lparr>kind = PlainObject, members = [(''b'', JNum 5)]\<rparr>],
      \<lparr>search = ''?selectionId=talk&variables=%7B%22a%22%3A%7B%22b%22%3A5%7D%7D'',
       pushed = [''?selectionId=talk&variables=%7B%22a%22%3A%7B%22b%22%3A5%7D%7D'']\<rparr>) \<and>
   JSON_stringify exampleLibs
       [\<lparr>kind = PlainObject, members = []\<rparr>,
        \<lparr>kind = PlainObject, members = [(''a'', JRef 2)]\<rparr>,
        \<lparr>kind = PlainObject, members = [(''b'', JNum 5)]\<rparr>] (JRef 1) =
     Inr ''{"a":{"b":5}}''\<close>
  using updateQuery_merges_field[of exampleLibs exampleStore "''themeId''" "JStr ''dark''"
      "\<lparr>search = ''?selectionId=talk'', pushed = []\<rparr>"]
  by (simp add: exampleLibs_def updateQuery_def assetDesignerReducer_def action_types
        lodash_set_def path_defs store_defs Let_def)

subsection \<open>The selection resolver\<close>

text \<open>
  C2. \<^verbatim>\<open>getSelection\<close> reads the template registry first and the component registry
  when the template registry has nothing under the id. For an id that is in neither, the
  resolver returns \<^verbatim>\<open>undefined\<close>, the page puts the placeholder \<^verbatim>\<open>NoSelectionFound\<close>
  in its place and renders (with no variables) instead of throwing, and the placeholder
  itself renders a fixed fragment.
\<close>

theorem getSelection_templates_then_components:
  "(templates R sid = Some s \<longrightarrow> getSelection R sid = Some s) \<and>
   (templates R sid = None \<longrightarrow> getSelection R sid = components R sid) \<and>
   (templates R sid = None \<and> components R sid = None \<longrightarrow>
      getSelection R sid = None \<and>
      resolveSelection R sid = NoSelectionFound \<and>
      (\<forall>L i ts state h. selectionId state = sid \<longrightarrow>
         AssetDesignerPage L R \<lparr>initialState = i, themes = Some ts\<rparr> (Some state) h =
           (Inr (Designer (renderDesigner R h ts state), Some state), h) \<and>
         mainComponent (renderDesigner R h ts state) = NoSelectionFound \<and>
         variableValues (renderDesigner R h ts state) = [])) \<and>
   renderNoSelectionFound = Inr (Fragment ''No selection found!'')"
  by (auto simp: getSelection_def resolveSelection_def AssetDesignerPage_def renderDesigner_def
        componentVariables_def renderNoSelectionFound_def Let_def)

theorem getSelection_templates_then_components_witness:
  "templates exampleRegistries (JStr ''talk'') = Some talkTemplate \<and>
   components exampleRegistries (JStr ''talk'') = Some logoComponent \<and>
   getSelection exampleRegistries (JStr ''talk'') = Some talkTemplate \<and>
   templates exampleRegistries (JStr ''logo'') = None \<and>
   getSelection exampleRegistries (JStr ''logo'') = Some logoComponent \<and>
   templates exampleRegistries (JStr ''nowhere'') = None \<and>
   components exampleRegistries (JStr ''nowhere'') = None \<and>
   resolveSelection exampleRegistries (JStr ''nowhere'') = NoSelectionFound \<and>
   AssetDesignerPage exampleLibs exampleRegistries \<lparr>initialState = None, themes = Some []\<rparr>
       (Some \<lparr>themeId = JStr [], selectionId = JStr ''nowhere'', variables = 2\<rparr>) exampleStore =
     (Inr (Designer \<lparr>sidebarBackground = [], selectedTheme = JStr [],
             selectedTemplate = JStr ''nowhere'', variableValues = [],
             mainComponent = NoSelectionFound, mainVariables = [], mainTheme = None\<rparr>,
           Some \<lparr>themeId = JStr [], selectionId = JStr ''nowhere'', variables = 2\<rparr>),
      exampleStore)"
  using getSelection_templates_then_components[of exampleRegistries "JStr ''talk''" talkTemplate]
    getSelection_templates_then_components[of exampleRegistries "JStr ''logo''" talkTemplate]
    getSelection_templates_then_components[of exampleRegistries "JStr ''nowhere''" talkTemplate]
  by (simp add: exampleRegistries_def renderDesigner_def resolveTheme_def componentVariables_def
        exampleStore_def propsAt_def)

text \<open>
  C10. The initialiser of the state reads \<^verbatim>\<open>variables\<close> of what \<^verbatim>\<open>getSelection\<close>
  returns, with no placeholder in between. When the initial selection id (the empty string
  when no initial state is given) is in neither registry, the initialiser throws, and so
  does the first call of the page that has its themes. The placeholder stands in only
  once a state is held: the same page then renders it.
\<close>

theorem unknown_initial_selection_throws:
  "themes props = Some ts \<Longrightarrow>
   sid = (case initialState props of Some s \<Rightarrow> s | None \<Rightarrow> JStr []) \<Longrightarrow>
   templates R sid = None \<Longrightarrow> components R sid = None \<Longrightarrow>
     initDesignerState L R sid h = (Inl TypeError, h) \<and>
     AssetDesignerPage L R props None h = (Inl TypeError, h) \<and>
     AssetDesignerPage L R props (Some (state\<lparr>selectionId := sid\<rparr>)) h =
       (Inr (Designer (renderDesigner R h ts (state\<lparr>selectionId := sid\<rparr>)),
             Some (state\<lparr>selectionId := sid\<rparr>)), h) \<and>
     mainComponent (renderDesigner R h ts (state\<lparr>selectionId := sid\<rparr>)) = NoSelectionFound"
  by (simp add: initDesignerState_def getSelection_def AssetDesignerPage_def renderDesigner_def
        resolveSelection_def Let_def)

theorem unknown_initial_selection_throws_witness:
  "themes \<lparr>initialState = None, themes = Some []\<rparr> = Some [] \<and>
   templates exampleRegistries (JStr []) = None \<and>
   components exampleRegistries (JStr []) = None \<and>
   initDesignerState exampleLibs exampleRegistries (JStr []) exampleStore =
     (Inl TypeError, exampleStore) \<and>
   AssetDesignerPage exampleLibs exampleRegistries \<lparr>initialState = None, themes = Some []\<rparr> None
       exampleStore = (Inl TypeError, exampleStore) \<and>
   AssetDesignerPage exampleLibs exampleRegistries \<lparr>initialState = None, themes = Some []\<rparr>
       (Some \<lparr>themeId = JStr ''dark'', selectionId = JStr [], variables = 2\<rparr>) exampleStore =
     (Inr (Designer \<lparr>sidebarBackground = [], selectedTheme = JStr ''dark'',
             selectedTemplate = JStr [], variableValues = [],
             mainComponent = NoSelectionFound, mainVariables = [], mainTheme = None\<rparr>,
           Some \<lparr>themeId = JStr ''dark'', selectionId = JStr [], variables = 2\<rparr>),
      exampleStore)"
proof -
  have h: "themes \<lparr>initialState = None, themes = Some []\<rparr> = Some []"
    "JStr [] = (case initialState \<lparr>initialState = None, themes = Some []\<rparr> of
                  Some s \<Rightarrow> s | None \<Rightarrow> JStr [])"
    "templates exampleRegistries (JStr []) = None"
    "components exampleRegistries (JStr []) = None"
    by (simp_all add: exampleRegistries_def)
  show ?thesis
    using h unknown_initial_selection_throws[OF h, of exampleLibs exampleStore
        "\<lparr>themeId = JStr ''dark'', selectionId = JStr [], variables = 2\<rparr>"]
    by (simp add: renderDesigner_def resolveTheme_def componentVariables_def
          resolveSelection_def getSelection_def exampleStore_def propsAt_def)
qed

subsection \<open>The page\<close>

text \<open>
  C9. While the themes are missing the page returns \<^verbatim>\<open>null\<close>: it renders nothing, throws
  nothing and does not reach the state hook, on the first call as on any later one.
\<close>

theorem missing_themes_render_nothing:
  "themes props = None \<Longrightarrow> AssetDesignerPage L R props held h = (Inr (Null, held), h)"
  by (simp add: AssetDesignerPage_def)

theorem missing_themes_render_nothing_witness:
  "themes \<lparr>initialState = Some (JStr ''nowhere''), themes = None\<rparr> = None \<and>
   AssetDesignerPage exampleLibs exampleRegistries
     \<lparr>initialState = Some (JStr ''nowhere''), themes = None\<rparr> None exampleStore =
     (Inr (Null, None), exampleStore)"
  using missing_themes_render_nothing[of
      "\<lparr>initialState = Some (JStr ''nowhere''), themes = None\<rparr>"
      exampleLibs exampleRegistries None exampleStore]
  by simp

text \<open>
  C3, as the page has it. The first call of the page that has its themes starts from the
  selection id of its \<^verbatim>\<open>initialState\<close> property alone (the empty string when the property
  is missing): the theme id is the empty string, and the variables are a new object made by
  \<^verbatim>\<open>fromPairs\<close> of the pairs of id and \<^verbatim>\<open>validation.default\<close> of the descriptors of that
  selection. The page reads nothing of the URL for it; the query parameters \<^verbatim>\<open>themeId\<close>
  and \<^verbatim>\<open>variables\<close> have no part in the initial state.
\<close>

theorem initial_state_from_selection_id:
  "themes props = Some ts \<Longrightarrow>
   sid = (case initialState props of Some s \<Rightarrow> s | None \<Rightarrow> JStr []) \<Longrightarrow>
   AssetDesignerPage L R props None h = (Inr (el, held), h') \<Longrightarrow>
     \<exists>sel vs state.
       getSelection R sid = Some sel \<and> variableDescriptors sel = Some vs \<and>
       held = Some state \<and> themeId state = JStr [] \<and> selectionId state = sid \<and>
       fromPairs h (map (\<lambda>d. (variable_id d, lodash_get L h (validation d) ''default'')) vs) =
         (variables state, h')"
  by (auto simp: AssetDesignerPage_def initDesignerState_def
        split: option.splits sum.splits prod.splits)

theorem initial_state_from_selection_id_witness:
  "themes \<lparr>initialState = Some (JStr ''talk''), themes = Some []\<rparr> = Some [] \<and>
   getSelection exampleRegistries (JStr ''talk'') = Some talkTemplate \<and>
   AssetDesignerPage exampleLibs exampleRegistries
       \<lparr>initialState = Some (JStr ''talk''), themes = Some []\<rparr> None exampleStore =
     (Inr (Designer
             \<lparr>sidebarBackground = [], selectedTheme = JStr [],
              selectedTemplate = JStr ''talk'',
              variableValues = [(\<lparr>variable_id = ''color'', validation = JRef 0\<rparr>, JStr ''blue'')],
              mainComponent = Registered talkTemplate,
              mainVariables = [(''color'', JStr ''blue'')], mainTheme = None\<rparr>,
           Some \<lparr>themeId = JStr [], selectionId = JStr ''talk'', variables = 4\<rparr>),
      exampleStore @ [\<lparr>kind = PlainObject, members = [(''color'', JStr ''blue'')]\<rparr>])"
proof -
  have init: "initDesignerState exampleLibs exampleRegistries (JStr ''talk'') exampleStore =
      (Inr \<lparr>themeId = JStr [], selectionId = JStr ''talk'', variables = 4\<rparr>,
       exampleStore @ [\<lparr>kind = PlainObject, members = [(''color'', JStr ''blue'')]\<rparr>])"
    by (simp add: initDesignerState_def getSelection_def exampleRegistries_def talkTemplate_def
          fromPairs_def lodash_get_default exampleStore_def readProp_def propsAt_def getProp_def)
  have page: "AssetDesignerPage exampleLibs exampleRegistries
       \<lparr>initialState = Some (JStr ''talk''), themes = Some []\<rparr> None exampleStore =
     (Inr (Designer
             \<lparr>sidebarBackground = [], selectedTheme = JStr [],
              selectedTemplate = JStr ''talk'',
              variableValues = [(\<lparr>variable_id = ''color'', validation = JRef 0\<rparr>, JStr ''blue'')],
              mainComponent = Registered talkTemplate,
              mainVariables = [(''color'', JStr ''blue'')], mainTheme = None\<rparr>,
           Some \<lparr>themeId = JStr [], selectionId = JStr ''talk'', variables = 4\<rparr>),
      exampleStore @ [\<lparr>kind = PlainObject, members = [(''color'', JStr ''blue'')]\<rparr>])"
    by (simp add: AssetDesignerPage_def init,
        simp add: renderDesigner_def resolveTheme_def resolveSelection_def getSelection_def
          componentVariables_def exampleRegistries_def talkTemplate_def exampleStore_def
          readProp_def propsAt_def getProp_def)
  have h: "themes \<lparr>initialState = Some (JStr ''talk''), themes = Some []\<rparr> = Some []"
    "JStr ''talk'' = (case initialState \<lparr>initialState = Some (JStr ''talk''), themes = Some []\<rparr>
        of Some s \<Rightarrow> s | None \<Rightarrow> JStr [])"
    by simp_all
  from initial_state_from_selection_id[OF h page] h page
  show ?thesis by (simp add: getSelection_def exampleRegistries_def)
qed

text \<open>
  C3 as stated fails: with the parameters \<^verbatim>\<open>selectionId=talk\<close>, \<^verbatim>\<open>themeId=dark\<close> and
  variables \<^verbatim>\<open>{"color":"red"}\<close> in the URL, and the selection id handed to the page, the
  state starts with the empty theme id and a new object holding the default colour, not
  with the state the URL describes.
\<close>

theorem url_theme_and_variables_counterexample:
  "(case AssetDesignerPage exampleLibs exampleRegistries
           \<lparr>initialState =
              Some (url_selectionId
                \<lparr>url_selectionId = JStr ''talk'', url_themeId = JStr ''dark'',
                 url_variables = 3\<rparr>),
            themes = Some [\<lparr>theme_id = ''light'', colors_background = ''#fff''\<rparr>,
                           \<lparr>theme_id = ''dark'', colors_background = ''#000''\<rparr>]\<rparr>
           None exampleStore
    of (res, h') \<Rightarrow> (map_sum id snd res, h')) =
     (Inr (Some \<lparr>themeId = JStr [], selectionId = JStr ''talk'', variables = 4\<rparr>),
      exampleStore @ [\<lparr>kind = PlainObject, members = [(''color'', JStr ''blue'')]\<rparr>]) \<and>
   stateReadFromUrl
     \<lparr>url_selectionId = JStr ''talk'', url_themeId = JStr ''dark'', url_variables = 3\<rparr> =
     \<lparr>themeId = JStr ''dark'', selectionId = JStr ''talk'', variables = 3\<rparr> \<and>
   propsAt exampleStore 3 = [(''color'', JStr ''red'')]"
  by (simp add: AssetDesignerPage_def initDesignerState_def getSelection_def
        exampleRegistries_def talkTemplate_def fromPairs_def lodash_get_default
        stateReadFromUrl_def exampleStore_def readProp_def propsAt_def getProp_def)

text \<open>
  C5, as the page has it. For a selection whose only descriptor has the id \<^verbatim>\<open>color\<close> and
  a validation whose \<^verbatim>\<open>default\<close> is \<^verbatim>\<open>blue\<close>, the initial variables are a new object
  \<^verbatim>\<open>{ color: "blue" }\<close>. In general the initial variables have exactly the declared ids as
  keys, and under the id of a descriptor that no later descriptor of the list repeats (so
  under every id when the ids are distinct) stands that descriptor's
  \<^verbatim>\<open>validation.default\<close>.
\<close>

theorem initial_variables_are_defaults:
  "(getSelection R sid =
      Some \<lparr>filename = f,
            variableDescriptors = Some [\<lparr>variable_id = ''color'', validation = JRef r\<rparr>]\<rparr> \<and>
    readProp h r ''default'' = JStr ''blue'' \<longrightarrow>
      initDesignerState L R sid h =
        (Inr \<lparr>themeId = JStr [], selectionId = sid, variables = length h\<rparr>,
         h @ [\<lparr>kind = PlainObject, members = [(''color'', JStr ''blue'')]\<rparr>])) \<and>
   (\<forall>sel vs. getSelection R sid = Some sel \<and> variableDescriptors sel = Some vs \<longrightarrow>
      (\<exists>state h'.
         initDesignerState L R sid h = (Inr state, h') \<and>
         (\<forall>k. hasProp (propsAt h' (variables state)) k = (k \<in> variable_id ` set vs)) \<and>
         (\<forall>i. i < length vs \<and>
               (\<forall>j. i < j \<and> j < length vs \<longrightarrow> variable_id (vs ! j) \<noteq> variable_id (vs ! i)) \<longrightarrow>
            readProp h' (variables state) (variable_id (vs ! i)) =
              lodash_get L h (validation (vs ! i)) ''default'')))"
proof (intro conjI allI impI)
  assume a: "getSelection R sid =
      Some \<lparr>filename = f,
            variableDescriptors = Some [\<lparr>variable_id = ''color'', validation = JRef r\<rparr>]\<rparr> \<and>
    readProp h r ''default'' = JStr ''blue''"
  then show "initDesignerState L R sid h =
        (Inr \<lparr>themeId = JStr [], selectionId = sid, variables = length h\<rparr>,
         h @ [\<lparr>kind = PlainObject, members = [(''color'', JStr ''blue'')]\<rparr>])"
    by (simp add: initDesignerState_def fromPairs_def lodash_get_default)
next
  fix sel :: selection and vs
  assume a: "getSelection R sid = Some sel \<and> variableDescriptors sel = Some vs"
  let ?ps = "map (\<lambda>d. (variable_id d, lodash_get L h (validation d) ''default'')) vs"
  let ?new = "foldl (\<lambda>result (k, v). setProp result k v) [] ?ps"
  let ?h' = "h @ [\<lparr>kind = PlainObject, members = ?new\<rparr>]"
  have init: "initDesignerState L R sid h =
      (Inr \<lparr>themeId = JStr [], selectionId = sid, variables = length h\<rparr>, ?h')"
    using a by (simp add: initDesignerState_seeds)
  have keys: "\<forall>k. hasProp (propsAt ?h' (length h)) k = (k \<in> variable_id ` set vs)"
    by (simp add: propsAt_append_new assign_keys image_image)
  have vals: "\<forall>i. i < length vs \<and>
               (\<forall>j. i < j \<and> j < length vs \<longrightarrow> variable_id (vs ! j) \<noteq> variable_id (vs ! i)) \<longrightarrow>
            readProp ?h' (length h) (variable_id (vs ! i)) =
              lodash_get L h (validation (vs ! i)) ''default''"
  proof (intro allI impI)
    fix i
    assume b: "i < length vs \<and>
               (\<forall>j. i < j \<and> j < length vs \<longrightarrow> variable_id (vs ! j) \<noteq> variable_id (vs ! i))"
    then have "i < length ?ps"
      and "\<forall>j. i < j \<and> j < length ?ps \<longrightarrow> fst (?ps ! j) \<noteq> fst (?ps ! i)"
      by simp_all
    from assign_last_wins[OF this] b
    show "readProp ?h' (length h) (variable_id (vs ! i)) =
              lodash_get L h (validation (vs ! i)) ''default''"
      by (simp add: readProp_def propsAt_append_new)
  qed
  show "\<exists>state h'.
         initDesignerState L R sid h = (Inr state, h') \<and>
         (\<forall>k. hasProp (propsAt h' (variables state)) k = (k \<in> variable_id ` set vs)) \<and>
         (\<forall>i. i < length vs \<and>
               (\<forall>j. i < j \<and> j < length vs \<longrightarrow> variable_id (vs ! j) \<noteq> variable_id (vs ! i)) \<longrightarrow>
            readProp h' (variables state) (variable_id (vs ! i)) =
              lodash_get L h (validation (vs ! i)) ''default'')"
    using init keys vals by simp
qed

theorem initial_variables_are_defaults_witness:
  "getSelection exampleRegistries (JStr ''talk'') =
     Some \<lparr>filename = ''talk'',
           variableDescriptors = Some [\<lparr>variable_id = ''color'', validation = JRef 0\<rparr>]\<rparr> \<and>
   readProp exampleStore 0 ''default'' = JStr ''blue'' \<and>
   initDesignerState exampleLibs exampleRegistries (JStr ''talk'') exampleStore =
     (Inr \<lparr>themeId = JStr [], selectionId = JStr ''talk'', variables = 4\<rparr>,
      exampleStore @ [\<lparr>kind = PlainObject, members = [(''color'', JStr ''blue'')]\<rparr>])"
  using initial_variables_are_defaults[of exampleRegistries "JStr ''talk''" "''talk''" 0
      exampleStore exampleLibs]
  by (simp add: exampleRegistries_def talkTemplate_def getSelection_def exampleStore_def
        readProp_def propsAt_def getProp_def)

text \<open>
  C5 as stated fails for a descriptor whose id a later descriptor repeats: the later
  default replaces the earlier one, here \<^verbatim>\<open>red\<close> for a first descriptor that declares
  \<^verbatim>\<open>blue\<close>.
\<close>

theorem repeated_variable_id_counterexample:
  "getSelection exampleRegistries (JStr ''twice'') =
     Some \<lparr>filename = ''twice'',
           variableDescriptors =
             Some [\<lparr>variable_id = ''color'', validation = JRef 0\<rparr>,
                   \<lparr>variable_id = ''color'', validation = JRef 1\<rparr>]\<rparr> \<and>
   lodash_get exampleLibs exampleStore (JRef 0) ''default'' = JStr ''blue'' \<and>
   initDesignerState exampleLibs exampleRegistries (JStr ''twice'') exampleStore =
     (Inr \<lparr>themeId = JStr [], selectionId = JStr ''twice'', variables = 4\<rparr>,
      exampleStore @ [\<lparr>kind = PlainObject, members = [(''color'', JStr ''red'')]\<rparr>])"
  by (simp add: exampleRegistries_def twiceTemplate_def getSelection_def initDesignerState_def
        fromPairs_def lodash_get_default exampleStore_def readProp_def propsAt_def getProp_def)

text \<open>
  C6, as the page has it. For a non-empty list of themes the resolved theme is one of the
  list: the first theme whose id is the state's theme id when there is one, and the first
  theme of the list when no theme has that id. So an empty theme id falls back to the
  first theme provided no theme has the empty id.
\<close>

theorem resolveTheme_match_or_first:
  "ts \<noteq> [] \<Longrightarrow>
     (\<exists>t. resolveTheme ts state = Some t \<and> t \<in> set ts) \<and>
     (\<forall>i. i < length ts \<and> JStr (theme_id (ts ! i)) = themeId state \<and>
           (\<forall>j. j < i \<longrightarrow> JStr (theme_id (ts ! j)) \<noteq> themeId state) \<longrightarrow>
        resolveTheme ts state = Some (ts ! i)) \<and>
     ((\<forall>t \<in> set ts. JStr (theme_id t) \<noteq> themeId state) \<longrightarrow>
        resolveTheme ts state = Some (hd ts)) \<and>
     (themeId state = JStr [] \<and> (\<forall>t \<in> set ts. theme_id t \<noteq> []) \<longrightarrow>
        resolveTheme ts state = Some (hd ts))"
proof -
  assume ne: "ts \<noteq> []"
  let ?P = "\<lambda>t. JStr (theme_id t) = themeId state"
  have none: "(\<forall>t \<in> set ts. \<not> ?P t) \<Longrightarrow> resolveTheme ts state = Some (hd ts)"
  proof -
    assume "\<forall>t \<in> set ts. \<not> ?P t"
    then have "find ?P ts = None" by (simp add: find_None_iff)
    with ne show ?thesis by (cases ts) (simp_all add: resolveTheme_def)
  qed
  have some: "\<And>i. i < length ts \<Longrightarrow> ?P (ts ! i) \<Longrightarrow> (\<forall>j. j < i \<longrightarrow> \<not> ?P (ts ! j)) \<Longrightarrow>
      resolveTheme ts state = Some (ts ! i)"
  proof -
    fix i assume "i < length ts" "?P (ts ! i)" "\<forall>j. j < i \<longrightarrow> \<not> ?P (ts ! j)"
    then have "find ?P ts = Some (ts ! i)" unfolding find_Some_iff by blast
    then show "resolveTheme ts state = Some (ts ! i)" by (simp add: resolveTheme_def)
  qed
  have mem: "\<exists>t. resolveTheme ts state = Some t \<and> t \<in> set ts"
  proof (cases "find ?P ts")
    case None
    with ne show ?thesis by (cases ts) (simp_all add: resolveTheme_def)
  next
    case (Some t)
    then have "t \<in> set ts" unfolding find_Some_iff by auto
    with Some show ?thesis by (simp add: resolveTheme_def)
  qed
  show ?thesis using none some mem by auto
qed

theorem resolveTheme_match_or_first_witness:
  "[\<lparr>theme_id = ''light'', colors_background = ''#fff''\<rparr>,
    \<lparr>theme_id = ''dark'', colors_background = ''#000''\<rparr>] \<noteq> [] \<and>
   resolveTheme [\<lparr>theme_id = ''light'', colors_background = ''#fff''\<rparr>,
                 \<lparr>theme_id = ''dark'', colors_background = ''#000''\<rparr>]
     \<lparr>themeId = JStr ''dark'', selectionId = JStr ''talk'', variables = 2\<rparr> =
     Some \<lparr>theme_id = ''dark'', colors_background = ''#000''\<rparr> \<and>
   resolveTheme [\<lparr>theme_id = ''light'', colors_background = ''#fff''\<rparr>,
                 \<lparr>theme_id = ''dark'', colors_background = ''#000''\<rparr>]
     \<lparr>themeId = JStr [], selectionId = JStr ''talk'', variables = 2\<rparr> =
     Some \<lparr>theme_id = ''light'', colors_background = ''#fff''\<rparr>"
  using resolveTheme_match_or_first[of "[\<lparr>theme_id = ''light'', colors_background = ''#fff''\<rparr>,
    \<lparr>theme_id = ''dark'', colors_background = ''#000''\<rparr>]"
    "\<lparr>themeId = JStr ''dark'', selectionId = JStr ''talk'', variables = 2\<rparr>"]
   resolveTheme_match_or_first[of "[\<lparr>theme_id = ''light'', colors_background = ''#fff''\<rparr>,
    \<lparr>theme_id = ''dark'', colors_background = ''#000''\<rparr>]"
    "\<lparr>themeId = JStr [], selectionId = JStr ''talk'', variables = 2\<rparr>"]
  by (simp add: resolveTheme_def)

text \<open>
  C6 as stated fails where a theme other than the first has the empty id: the empty theme
  id then resolves to that theme, not to the first one.
\<close>

theorem empty_theme_id_counterexample:
  "resolveTheme [\<lparr>theme_id = ''light'', colors_background = ''#fff''\<rparr>,
                 \<lparr>theme_id = [], colors_background = ''#000''\<rparr>]
     \<lparr>themeId = JStr [], selectionId = JStr ''talk'', variables = 2\<rparr> =
     Some \<lparr>theme_id = [], colors_background = ''#000''\<rparr> \<and>
   hd [\<lparr>theme_id = ''light'', colors_background = ''#fff''\<rparr>,
       \<lparr>theme_id = [], colors_background = ''#000''\<rparr>] =
     \<lparr>theme_id = ''light'', colors_background = ''#fff''\<rparr>"
  by (simp add: resolveTheme_def)

end
